theory Spec2Isabelle
  imports Main "HOL-Library.AList" "HOL-Library.Word"
begin

section \<open>Data model (shared/schema)\<close>

text \<open>
  Rows of the three tables the share routes touch. A nullable column is an \<open>option\<close>;
  a timestamp is the number of milliseconds of the JavaScript \<open>Date\<close>; an integer column is
  an \<open>int\<close> (download counters stay far below the range where a JavaScript number or a
  Postgres integer stops being exact). Several tables share column names, so fields are
  written with their record's name in front.
\<close>

type_synonym timestamp = int

record File =
  id' :: string
  userId :: string
  originalName :: string
  fileSize :: int
  fileType :: string
  storagePath :: string
  shareCode :: "string option"
  isPublic :: bool
  isLocked :: bool
  downloadLimit :: "int option"
  downloadCount :: int
  expiresAt :: "timestamp option"
  createdAt :: timestamp
  updatedAt :: timestamp

record SharedLink =
  id' :: string
  fileId :: string
  linkType :: string
  shareToken :: string
  recipientEmail :: "string option"
  passwordHash :: "string option"
  expiresAt :: "timestamp option"
  downloadLimit :: "int option"
  downloadCount :: int
  isActive :: bool
  createdAt :: timestamp

record DownloadLog =
  id' :: string
  fileId :: string
  sharedLinkId :: "string option"
  downloaderIp :: "string option"
  downloaderUserAgent :: "string option"
  downloadMethod :: string
  downloadedAt :: timestamp

text \<open>\<open>InsertDownloadLog\<close>: the row without the generated \<open>id\<close> and \<open>downloadedAt\<close>.\<close>

record InsertDownloadLog =
  fileId :: string
  sharedLinkId :: "string option"
  downloaderIp :: "string option"
  downloaderUserAgent :: "string option"
  downloadMethod :: string

text \<open>
  \<open>Partial<InsertFile>\<close>: every key may be absent (\<open>None\<close>); a nullable column that is
  present may be \<open>null\<close> (\<open>Some None\<close>).
\<close>

record FileUpdate =
  userId :: "string option"
  originalName :: "string option"
  fileSize :: "int option"
  fileType :: "string option"
  storagePath :: "string option"
  shareCode :: "string option option"
  isPublic :: "bool option"
  isLocked :: "bool option"
  downloadLimit :: "int option option"
  downloadCount :: "int option"
  expiresAt :: "timestamp option option"

definition noFileUpdate :: FileUpdate where
  "noFileUpdate = \<lparr> FileUpdate.userId = None, FileUpdate.originalName = None,
     FileUpdate.fileSize = None, FileUpdate.fileType = None, FileUpdate.storagePath = None,
     FileUpdate.shareCode = None, FileUpdate.isPublic = None, FileUpdate.isLocked = None,
     FileUpdate.downloadLimit = None, FileUpdate.downloadCount = None,
     FileUpdate.expiresAt = None \<rparr>"

text \<open>\<open>Partial<{ downloadCount: number; isActive: boolean }>\<close> of the later
  \<open>DatabaseStorage.updateSharedLink\<close>, the one that is in force.\<close>

record LinkUpdate =
  downloadCount :: "int option"
  isActive :: "bool option"

section \<open>MemStorage\<close>

text \<open>JavaScript truthiness of a nullable string: \<open>null\<close>, \<open>undefined\<close> and \<open>""\<close> are falsy.\<close>

definition truthy :: "string option \<Rightarrow> bool" where
  "truthy s = (case s of None \<Rightarrow> False | Some t \<Rightarrow> t \<noteq> [])"

text \<open>
  \<open>InsertFile\<close>: the columns with a default or without \<open>notNull\<close> are optional. The object
  \<open>MemStorage.createFile\<close> stores spreads \<open>insertFile\<close> and fills in \<open>null\<close> only for
  \<open>shareCode\<close>, \<open>downloadLimit\<close> and \<open>expiresAt\<close>, so \<open>isPublic\<close>, \<open>isLocked\<close> and
  \<open>downloadCount\<close> stay \<open>undefined\<close> (\<open>None\<close>) when the caller leaves them out.
\<close>

record InsertFile =
  userId :: string
  originalName :: string
  fileSize :: int
  fileType :: string
  storagePath :: string
  shareCode :: "string option"
  isPublic :: "bool option"
  isLocked :: "bool option"
  downloadLimit :: "int option"
  downloadCount :: "int option"
  expiresAt :: "timestamp option"

record MemFile =
  id' :: string
  userId :: string
  originalName :: string
  fileSize :: int
  fileType :: string
  storagePath :: string
  shareCode :: "string option"
  isPublic :: "bool option"
  isLocked :: "bool option"
  downloadLimit :: "int option"
  downloadCount :: "int option"
  expiresAt :: "timestamp option"
  createdAt :: timestamp
  updatedAt :: timestamp

text \<open>
  A JavaScript \<open>Map\<close> is an association list with one entry per key, in insertion order:
  \<open>get\<close> is \<open>map_of\<close>, \<open>set\<close> is \<open>AList.update\<close>, \<open>delete\<close> is \<open>AList.delete\<close>, and
  \<open>values()\<close> is \<open>map snd\<close>. The maps of users and profiles play no part in the file
  operations and are left out.
\<close>

record MemStorage =
  files :: "(string \<times> MemFile) list"
  sharedLinks :: "(string \<times> SharedLink) list"
  downloadLogs :: "(string \<times> DownloadLog) list"
  shareCodeToFileId :: "(string \<times> string) list"
  shareTokenToLinkId :: "(string \<times> string) list"

definition Mem_new :: MemStorage where
  "Mem_new = \<lparr> MemStorage.files = [], MemStorage.sharedLinks = [],
     MemStorage.downloadLogs = [], shareCodeToFileId = [], shareTokenToLinkId = [] \<rparr>"

definition Mem_getFile :: "MemStorage \<Rightarrow> string \<Rightarrow> MemFile option" where
  "Mem_getFile s i = map_of (MemStorage.files s) i"

definition Mem_getFileByShareCode :: "MemStorage \<Rightarrow> string \<Rightarrow> MemFile option" where
  "Mem_getFileByShareCode s code =
     (case map_of (shareCodeToFileId s) code of
        None \<Rightarrow> None
      | Some fid \<Rightarrow> if fid = [] then None else map_of (MemStorage.files s) fid)"

text \<open>\<open>uuid\<close> is the result of \<open>crypto.randomUUID()\<close>, \<open>t\<close> that of \<open>new Date()\<close> (the two
  readings of the clock in \<open>createFile\<close> are taken as one).\<close>

definition Mem_createFile ::
  "string \<Rightarrow> timestamp \<Rightarrow> InsertFile \<Rightarrow> MemStorage \<Rightarrow> MemFile \<times> MemStorage" where
  "Mem_createFile uuid t insertFile s =
     (let file = \<lparr> MemFile.id' = uuid,
                   MemFile.userId = InsertFile.userId insertFile,
                   MemFile.originalName = InsertFile.originalName insertFile,
                   MemFile.fileSize = InsertFile.fileSize insertFile,
                   MemFile.fileType = InsertFile.fileType insertFile,
                   MemFile.storagePath = InsertFile.storagePath insertFile,
                   MemFile.shareCode = InsertFile.shareCode insertFile,
                   MemFile.isPublic = InsertFile.isPublic insertFile,
                   MemFile.isLocked = InsertFile.isLocked insertFile,
                   MemFile.downloadLimit = InsertFile.downloadLimit insertFile,
                   MemFile.downloadCount = InsertFile.downloadCount insertFile,
                   MemFile.expiresAt = InsertFile.expiresAt insertFile,
                   MemFile.createdAt = t,
                   MemFile.updatedAt = t \<rparr>;
          s1 = s\<lparr> MemStorage.files := AList.update uuid file (MemStorage.files s) \<rparr>
      in (file,
          if truthy (MemFile.shareCode file)
          then s1\<lparr> shareCodeToFileId :=
                    AList.update (the (MemFile.shareCode file)) uuid (shareCodeToFileId s1) \<rparr>
          else s1))"

text \<open>\<open>{ ...existing, ...fileUpdate }\<close>: a key that \<open>fileUpdate\<close> has replaces the stored
  one. A key present with the value \<open>undefined\<close> acts like \<open>null\<close> in what follows.\<close>

definition Mem_spread :: "FileUpdate \<Rightarrow> MemFile \<Rightarrow> MemFile" where
  "Mem_spread u f = f
     \<lparr> MemFile.userId := (case FileUpdate.userId u of None \<Rightarrow> MemFile.userId f | Some v \<Rightarrow> v),
       MemFile.originalName :=
         (case FileUpdate.originalName u of None \<Rightarrow> MemFile.originalName f | Some v \<Rightarrow> v),
       MemFile.fileSize :=
         (case FileUpdate.fileSize u of None \<Rightarrow> MemFile.fileSize f | Some v \<Rightarrow> v),
       MemFile.fileType :=
         (case FileUpdate.fileType u of None \<Rightarrow> MemFile.fileType f | Some v \<Rightarrow> v),
       MemFile.storagePath :=
         (case FileUpdate.storagePath u of None \<Rightarrow> MemFile.storagePath f | Some v \<Rightarrow> v),
       MemFile.shareCode :=
         (case FileUpdate.shareCode u of None \<Rightarrow> MemFile.shareCode f | Some v \<Rightarrow> v),
       MemFile.isPublic :=
         (case FileUpdate.isPublic u of None \<Rightarrow> MemFile.isPublic f | Some v \<Rightarrow> Some v),
       MemFile.isLocked :=
         (case FileUpdate.isLocked u of None \<Rightarrow> MemFile.isLocked f | Some v \<Rightarrow> Some v),
       MemFile.downloadLimit :=
         (case FileUpdate.downloadLimit u of None \<Rightarrow> MemFile.downloadLimit f | Some v \<Rightarrow> v),
       MemFile.downloadCount :=
         (case FileUpdate.downloadCount u of
            None \<Rightarrow> MemFile.downloadCount f | Some v \<Rightarrow> Some v),
       MemFile.expiresAt :=
         (case FileUpdate.expiresAt u of None \<Rightarrow> MemFile.expiresAt f | Some v \<Rightarrow> v) \<rparr>"

text \<open>
  \<open>fileUpdate.shareCode !== existing.shareCode\<close> is evaluated where \<open>existing.shareCode\<close>
  is a non-empty string: it is false only when \<open>fileUpdate\<close> has that very string.
\<close>

definition Mem_updateFile ::
  "string \<Rightarrow> timestamp \<Rightarrow> FileUpdate \<Rightarrow> MemStorage \<Rightarrow> MemFile option \<times> MemStorage" where
  "Mem_updateFile i t fileUpdate s =
     (case map_of (MemStorage.files s) i of
        None \<Rightarrow> (None, s)
      | Some existing \<Rightarrow>
          let s1 = (if truthy (MemFile.shareCode existing) \<and>
                       FileUpdate.shareCode fileUpdate \<noteq> Some (MemFile.shareCode existing)
                    then s\<lparr> shareCodeToFileId :=
                             AList.delete (the (MemFile.shareCode existing))
                               (shareCodeToFileId s) \<rparr>
                    else s);
              updated = (Mem_spread fileUpdate existing)\<lparr> MemFile.updatedAt := t \<rparr>;
              s2 = (if truthy (MemFile.shareCode updated)
                    then s1\<lparr> shareCodeToFileId :=
                             AList.update (the (MemFile.shareCode updated)) i
                               (shareCodeToFileId s1) \<rparr>
                    else s1)
          in (Some updated,
              s2\<lparr> MemStorage.files := AList.update i updated (MemStorage.files s2) \<rparr>))"

definition Mem_deleteFile :: "string \<Rightarrow> MemStorage \<Rightarrow> bool \<times> MemStorage" where
  "Mem_deleteFile i s =
     (case map_of (MemStorage.files s) i of
        None \<Rightarrow> (False, s)
      | Some file \<Rightarrow>
          let s1 = (if truthy (MemFile.shareCode file)
                    then s\<lparr> shareCodeToFileId :=
                             AList.delete (the (MemFile.shareCode file))
                               (shareCodeToFileId s) \<rparr>
                    else s);
              linksToDelete =
                filter (\<lambda>link. SharedLink.fileId link = i) (map snd (MemStorage.sharedLinks s1));
              s2 = fold (\<lambda>link st. st
                     \<lparr> MemStorage.sharedLinks :=
                         AList.delete (SharedLink.id' link) (MemStorage.sharedLinks st),
                       shareTokenToLinkId :=
                         AList.delete (SharedLink.shareToken link) (shareTokenToLinkId st) \<rparr>)
                     linksToDelete s1;
              logsToDelete =
                filter (\<lambda>log. DownloadLog.fileId log = i) (map snd (MemStorage.downloadLogs s2));
              s3 = fold (\<lambda>log st. st
                     \<lparr> MemStorage.downloadLogs :=
                         AList.delete (DownloadLog.id' log) (MemStorage.downloadLogs st) \<rparr>)
                     logsToDelete s2
          in (True, s3\<lparr> MemStorage.files := AList.delete i (MemStorage.files s3) \<rparr>))"

text \<open>
  A sequence of file operations on a store. \<open>crypto.randomUUID()\<close> returns an identifier
  that is not in use; \<open>freshIds\<close> says so of the identifiers a sequence draws.
\<close>

datatype MemOp =
    CreateFile string timestamp InsertFile
  | UpdateFile string timestamp FileUpdate
  | DeleteFile string

fun Mem_apply :: "MemOp \<Rightarrow> MemStorage \<Rightarrow> MemStorage" where
  "Mem_apply (CreateFile uuid t insertFile) s = snd (Mem_createFile uuid t insertFile s)"
| "Mem_apply (UpdateFile i t fileUpdate) s = snd (Mem_updateFile i t fileUpdate s)"
| "Mem_apply (DeleteFile i) s = snd (Mem_deleteFile i s)"

fun Mem_run :: "MemOp list \<Rightarrow> MemStorage \<Rightarrow> MemStorage" where
  "Mem_run [] s = s"
| "Mem_run (op # ops) s = Mem_run ops (Mem_apply op s)"

fun freshIds :: "MemOp list \<Rightarrow> MemStorage \<Rightarrow> bool" where
  "freshIds [] s = True"
| "freshIds (CreateFile uuid t insertFile # ops) s =
     (map_of (MemStorage.files s) uuid = None \<and>
      freshIds ops (Mem_apply (CreateFile uuid t insertFile) s))"
| "freshIds (op # ops) s = freshIds ops (Mem_apply op s)"

subsection \<open>hashPassword and validatePassword\<close>

text \<open>
  \<open>hashPassword\<close> is \<open>btoa(password + 'salt')\<close>. A JavaScript string is a sequence of
  UTF-16 code units, and \<open>btoa\<close> tells them apart: it throws \<open>InvalidCharacterError\<close> when
  a code unit is above 255 and otherwise encodes the code units, as bytes, in Base64
  (three bytes to four digits of the alphabet, the last group padded with \<open>=\<close>). So the
  passwords and hashes of this section are lists of 16-bit code units; \<open>codeUnitsOf\<close>
  gives those of an ASCII literal. \<open>base64\<close> is only ever applied to bytes, numbers
  below 256, so every digit it looks up is one of the 64 of the alphabet.
\<close>

type_synonym codeUnits = "16 word list"

definition codeUnitsOf :: "string \<Rightarrow> codeUnits" where
  "codeUnitsOf s = map (\<lambda>c. of_nat (of_char c)) s"

datatype jsError = InvalidCharacterError

definition base64Alphabet :: string where
  "base64Alphabet = ''ABCDEFGHIJKLMNOPQRSTUVWXYZabcdefghijklmnopqrstuvwxyz0123456789+/''"

definition base64Digit :: "nat \<Rightarrow> char" where
  "base64Digit n = base64Alphabet ! n"

fun base64 :: "nat list \<Rightarrow> string" where
  "base64 [] = []"
| "base64 [a] =
     [base64Digit (a div 4), base64Digit ((a mod 4) * 16), CHR ''='', CHR ''='']"
| "base64 [a, b] =
     [base64Digit (a div 4), base64Digit ((a mod 4) * 16 + b div 16),
      base64Digit ((b mod 16) * 4), CHR ''='']"
| "base64 (a # b # c # rest) =
     base64Digit (a div 4) # base64Digit ((a mod 4) * 16 + b div 16) #
     base64Digit ((b mod 16) * 4 + c div 64) # base64Digit (c mod 64) # base64 rest"

definition btoa :: "codeUnits \<Rightarrow> jsError + codeUnits" where
  "btoa input =
     (if list_ex (\<lambda>u. 255 < u) input then Inl InvalidCharacterError
      else Inr (codeUnitsOf (base64 (map unat input))))"

text \<open>\<open>validatePassword\<close> is \<open>this.hashPassword(password) === hash\<close>: it throws when
  \<open>hashPassword\<close> does.\<close>

definition Mem_hashPassword :: "codeUnits \<Rightarrow> jsError + codeUnits" where
  "Mem_hashPassword password = btoa (password @ codeUnitsOf ''salt'')"

definition Mem_validatePassword :: "codeUnits \<Rightarrow> codeUnits \<Rightarrow> jsError + bool" where
  "Mem_validatePassword password hash =
     (case Mem_hashPassword password of Inl e \<Rightarrow> Inl e | Inr h \<Rightarrow> Inr (h = hash))"

section \<open>DatabaseStorage\<close>

record DB =
  files :: "File list"
  sharedLinks :: "SharedLink list"
  downloadLogs :: "DownloadLog list"

text \<open>
  A table is the list of its rows; \<open>select ... where ... limit 1\<close> is the first row that
  matches, \<open>update ... where\<close> rewrites every row that matches, \<open>insert\<close> appends.
\<close>

definition getFile :: "DB \<Rightarrow> string \<Rightarrow> File option" where
  "getFile db i = find (\<lambda>f. File.id' f = i) (files db)"

definition getFileByShareCode :: "DB \<Rightarrow> string \<Rightarrow> File option" where
  "getFileByShareCode db c = find (\<lambda>f. File.shareCode f = Some c) (files db)"

definition getSharedLink :: "DB \<Rightarrow> string \<Rightarrow> SharedLink option" where
  "getSharedLink db t = find (\<lambda>l. SharedLink.shareToken l = t) (sharedLinks db)"

definition setFile :: "FileUpdate \<Rightarrow> File \<Rightarrow> File" where
  "setFile u f = f
     \<lparr> File.userId := (case FileUpdate.userId u of None \<Rightarrow> File.userId f | Some v \<Rightarrow> v),
       File.originalName :=
         (case FileUpdate.originalName u of None \<Rightarrow> File.originalName f | Some v \<Rightarrow> v),
       File.fileSize := (case FileUpdate.fileSize u of None \<Rightarrow> File.fileSize f | Some v \<Rightarrow> v),
       File.fileType := (case FileUpdate.fileType u of None \<Rightarrow> File.fileType f | Some v \<Rightarrow> v),
       File.storagePath :=
         (case FileUpdate.storagePath u of None \<Rightarrow> File.storagePath f | Some v \<Rightarrow> v),
       File.shareCode :=
         (case FileUpdate.shareCode u of None \<Rightarrow> File.shareCode f | Some v \<Rightarrow> v),
       File.isPublic := (case FileUpdate.isPublic u of None \<Rightarrow> File.isPublic f | Some v \<Rightarrow> v),
       File.isLocked := (case FileUpdate.isLocked u of None \<Rightarrow> File.isLocked f | Some v \<Rightarrow> v),
       File.downloadLimit :=
         (case FileUpdate.downloadLimit u of None \<Rightarrow> File.downloadLimit f | Some v \<Rightarrow> v),
       File.downloadCount :=
         (case FileUpdate.downloadCount u of None \<Rightarrow> File.downloadCount f | Some v \<Rightarrow> v),
       File.expiresAt :=
         (case FileUpdate.expiresAt u of None \<Rightarrow> File.expiresAt f | Some v \<Rightarrow> v) \<rparr>"

definition updateFile :: "string \<Rightarrow> FileUpdate \<Rightarrow> DB \<Rightarrow> DB" where
  "updateFile i u db =
     db\<lparr> files := map (\<lambda>f. if File.id' f = i then setFile u f else f) (files db) \<rparr>"

definition setLink :: "LinkUpdate \<Rightarrow> SharedLink \<Rightarrow> SharedLink" where
  "setLink u l = l
     \<lparr> SharedLink.downloadCount :=
         (case LinkUpdate.downloadCount u of None \<Rightarrow> SharedLink.downloadCount l | Some v \<Rightarrow> v),
       SharedLink.isActive :=
         (case LinkUpdate.isActive u of None \<Rightarrow> SharedLink.isActive l | Some v \<Rightarrow> v) \<rparr>"

definition updateSharedLink :: "string \<Rightarrow> LinkUpdate \<Rightarrow> DB \<Rightarrow> DB" where
  "updateSharedLink i u db =
     db\<lparr> sharedLinks :=
           map (\<lambda>l. if SharedLink.id' l = i then setLink u l else l) (sharedLinks db) \<rparr>"

text \<open>The generated primary key and the \<open>defaultNow()\<close> timestamp are inputs.\<close>

definition createDownloadLog :: "string \<Rightarrow> timestamp \<Rightarrow> InsertDownloadLog \<Rightarrow> DB \<Rightarrow> DB" where
  "createDownloadLog u t ins db =
     db\<lparr> downloadLogs := downloadLogs db @
           [\<lparr> DownloadLog.id' = u,
              DownloadLog.fileId = InsertDownloadLog.fileId ins,
              DownloadLog.sharedLinkId = InsertDownloadLog.sharedLinkId ins,
              DownloadLog.downloaderIp = InsertDownloadLog.downloaderIp ins,
              DownloadLog.downloaderUserAgent = InsertDownloadLog.downloaderUserAgent ins,
              DownloadLog.downloadMethod = InsertDownloadLog.downloadMethod ins,
              DownloadLog.downloadedAt = t \<rparr>] \<rparr>"

section \<open>What a request sees of the outside world\<close>

text \<open>
  \<open>now\<close> is \<open>new Date()\<close>; \<open>uuid\<close> the key the database generates for an inserted log;
  \<open>ip\<close>, \<open>remoteAddress\<close> and \<open>userAgent\<close> come from the request (\<open>None\<close> is
  \<open>undefined\<close>); \<open>compareSync\<close> is \<open>bcrypt.compareSync\<close>, a library function that either
  throws (\<open>Inl\<close>) or answers, its first argument being \<open>undefined\<close> when the request carries
  no password; \<open>existsSync\<close> is \<open>fs.existsSync\<close> on the joined path;
  \<open>invalidHeaderValue\<close> is the check Node makes of a header value, \<open>res.setHeader\<close>
  throwing where it holds; \<open>fault\<close> is the position, counted from 0 within one handler,
  of the awaited storage call that rejects (\<open>None\<close>: all succeed). A rejected write is
  taken not to have happened.
\<close>

record Env =
  now :: timestamp
  uuid :: string
  ip :: "string option"
  remoteAddress :: "string option"
  userAgent :: "string option"
  compareSync :: "string option \<Rightarrow> string \<Rightarrow> unit + bool"
  existsSync :: "string \<Rightarrow> bool"
  invalidHeaderValue :: "string \<Rightarrow> bool"
  fault :: "nat option"

datatype Response =
    ErrorJson nat string
  | PasswordRequired
  | ServerError
  | SendFile string string
  | FileInfo File
  | SharedInfo File SharedLink
  | FileAndLink File SharedLink

text \<open>
  \<open>ErrorJson n msg\<close> is \<open>res.status(n).json({ error: msg })\<close>; \<open>PasswordRequired\<close> the 401
  with \<open>requiresPassword: true\<close>; \<open>ServerError\<close> the 500 of a handler's \<open>catch\<close>;
  \<open>SendFile path name\<close> is \<open>res.download\<close> / \<open>res.sendFile\<close>: the file's bytes are served;
  \<open>FileInfo\<close> and \<open>SharedInfo\<close> are the 200 summaries of the two public information
  routes, \<open>FileAndLink\<close> the \<open>{ file, link }\<close> of \<open>GET /api/shared-links/:token\<close>.
\<close>

subsection \<open>Password validation\<close>

text \<open>\<open>try { return bcrypt.compareSync(password, hash) } catch { return false }\<close>, twice.\<close>

definition validatePassword :: "Env \<Rightarrow> string option \<Rightarrow> string \<Rightarrow> bool" where
  "validatePassword env password hash =
     (case compareSync env password hash of Inl _ \<Rightarrow> False | Inr b \<Rightarrow> b)"

definition validateFilePassword :: "Env \<Rightarrow> string option \<Rightarrow> string \<Rightarrow> bool" where
  "validateFilePassword env password hash =
     (case compareSync env password hash of Inl _ \<Rightarrow> False | Inr b \<Rightarrow> b)"

subsection \<open>The guards every route repeats\<close>

text \<open>\<open>x.expiresAt && new Date() > x.expiresAt\<close>: a \<open>Date\<close> object is always truthy.\<close>

definition expired :: "timestamp \<Rightarrow> timestamp option \<Rightarrow> bool" where
  "expired t e = (case e of None \<Rightarrow> False | Some x \<Rightarrow> t > x)"

text \<open>\<open>x.downloadLimit && x.downloadCount >= x.downloadLimit\<close>: the number 0 is falsy.\<close>

definition limitExceeded :: "int option \<Rightarrow> int \<Rightarrow> bool" where
  "limitExceeded lim c = (case lim of None \<Rightarrow> False | Some l \<Rightarrow> l \<noteq> 0 \<and> c \<ge> l)"

text \<open>\<open>a || b\<close> on nullable strings.\<close>

definition orElse :: "string option \<Rightarrow> string option \<Rightarrow> string option" where
  "orElse a b = (if truthy a then a else b)"

text \<open>\<open>a || ''\<close> on a nullable string.\<close>

definition orEmpty :: "string option \<Rightarrow> string" where
  "orEmpty a = (case a of None \<Rightarrow> [] | Some h \<Rightarrow> h)"

text \<open>
  The two routes that send the file with \<open>res.sendFile\<close> first set two headers:
  \<open>Content-Disposition\<close> to \<open>attachment; filename="${file.originalName}"\<close> and
  \<open>Content-Type\<close> to \<open>file.fileType\<close>. Either \<open>res.setHeader\<close> throws on a value Node
  refuses, and the handler's \<open>catch\<close> then answers 500.
\<close>

definition contentDisposition :: "string \<Rightarrow> string" where
  "contentDisposition name = ''attachment; filename='' @ [CHR 0x22] @ name @ [CHR 0x22]"

definition setHeaderThrows :: "Env \<Rightarrow> File \<Rightarrow> bool" where
  "setHeaderThrows env file =
     (invalidHeaderValue env (contentDisposition (File.originalName file)) \<or>
      invalidHeaderValue env (File.fileType file))"

section \<open>Routes\<close>

text \<open>
  Each handler takes the database and returns its response with the database it leaves.
  Where a guard reads \<open>x.passwordHash && ...\<close>, the hash is used only under
  \<open>truthy (passwordHash x)\<close>, so \<open>the\<close> is applied to a \<open>Some\<close>.
\<close>

subsection \<open>GET /api/download/code/:shareCode\<close>

definition download_code :: "Env \<Rightarrow> string \<Rightarrow> DB \<Rightarrow> Response \<times> DB" where
  "download_code env code db =
    (if fault env = Some 0 then (ServerError, db) else
     case getFileByShareCode db code of
       None \<Rightarrow> (ErrorJson 404 ''File not found'', db)
     | Some file \<Rightarrow>
         if expired (now env) (File.expiresAt file)
           then (ErrorJson 410 ''File has expired'', db)
         else if limitExceeded (File.downloadLimit file) (File.downloadCount file)
           then (ErrorJson 429 ''Download limit exceeded'', db)
         else if fault env = Some 1 then (ServerError, db)
         else
           let db1 = createDownloadLog (uuid env) (now env)
                 \<lparr> InsertDownloadLog.fileId = File.id' file,
                   InsertDownloadLog.sharedLinkId = None,
                   InsertDownloadLog.downloaderIp = ip env,
                   InsertDownloadLog.downloaderUserAgent = orElse (userAgent env) None,
                   InsertDownloadLog.downloadMethod = ''code'' \<rparr> db
           in if fault env = Some 2 then (ServerError, db1)
           else
             let db2 = updateFile (File.id' file)
                   (noFileUpdate\<lparr> FileUpdate.downloadCount :=
                       Some (File.downloadCount file + 1) \<rparr>) db1
             in (SendFile (File.storagePath file) (File.originalName file), db2))"

subsection \<open>GET /api/public/file/:shareCode\<close>

text \<open>\<open>password\<close> is \<open>req.query.password\<close>; \<open>!password\<close> holds for \<open>undefined\<close> and \<open>""\<close>.
  The hash handed to \<open>validatePassword\<close> is \<open>file.shareCode || ''\<close>.\<close>

definition public_file :: "Env \<Rightarrow> string \<Rightarrow> string option \<Rightarrow> DB \<Rightarrow> Response \<times> DB" where
  "public_file env code password db =
    (if fault env = Some 0 then (ServerError, db) else
     case getFileByShareCode db code of
       None \<Rightarrow> (ErrorJson 404 ''File not found'', db)
     | Some file \<Rightarrow>
         if \<not> File.isPublic file
           then (ErrorJson 403 ''File is not publicly accessible'', db)
         else if File.isLocked file \<and> \<not> truthy password then (PasswordRequired, db)
         else if File.isLocked file \<and> truthy password \<and>
                 \<not> validatePassword env password (orEmpty (File.shareCode file))
           then (ErrorJson 401 ''Invalid password'', db)
         else if expired (now env) (File.expiresAt file)
           then (ErrorJson 410 ''File has expired'', db)
         else if limitExceeded (File.downloadLimit file) (File.downloadCount file)
           then (ErrorJson 410 ''Download limit exceeded'', db)
         else (FileInfo file, db))"

subsection \<open>GET /api/shared/:token\<close>

definition shared_info :: "Env \<Rightarrow> string \<Rightarrow> string option \<Rightarrow> DB \<Rightarrow> Response \<times> DB" where
  "shared_info env token password db =
    (if fault env = Some 0 then (ServerError, db) else
     case getSharedLink db token of
       None \<Rightarrow> (ErrorJson 404 ''Shared link not found'', db)
     | Some sharedLink \<Rightarrow>
         if \<not> SharedLink.isActive sharedLink
           then (ErrorJson 410 ''Shared link is inactive'', db)
         else if expired (now env) (SharedLink.expiresAt sharedLink)
           then (ErrorJson 410 ''Shared link has expired'', db)
         else if limitExceeded (SharedLink.downloadLimit sharedLink)
                   (SharedLink.downloadCount sharedLink)
           then (ErrorJson 410 ''Download limit exceeded'', db)
         else if truthy (SharedLink.passwordHash sharedLink) \<and> \<not> truthy password
           then (PasswordRequired, db)
         else if truthy (SharedLink.passwordHash sharedLink) \<and>
                 \<not> validatePassword env password (the (SharedLink.passwordHash sharedLink))
           then (ErrorJson 401 ''Invalid password'', db)
         else if fault env = Some 1 then (ServerError, db)
         else
           case getFile db (SharedLink.fileId sharedLink) of
             None \<Rightarrow> (ErrorJson 404 ''File not found'', db)
           | Some file \<Rightarrow> (SharedInfo file sharedLink, db))"

subsection \<open>GET /api/shared-links/:token\<close>

definition shared_links_info :: "Env \<Rightarrow> string \<Rightarrow> DB \<Rightarrow> Response \<times> DB" where
  "shared_links_info env token db =
    (if fault env = Some 0 then (ServerError, db) else
     case getSharedLink db token of
       None \<Rightarrow> (ErrorJson 404 ''Share link not found'', db)
     | Some link \<Rightarrow>
         if \<not> SharedLink.isActive link then (ErrorJson 404 ''Share link not found'', db)
         else if expired (now env) (SharedLink.expiresAt link)
           then (ErrorJson 410 ''Share link has expired'', db)
         else if fault env = Some 1 then (ServerError, db)
         else
           case getFile db (SharedLink.fileId link) of
             None \<Rightarrow> (ErrorJson 404 ''File not found'', db)
           | Some file \<Rightarrow> (FileAndLink file link, db))"

subsection \<open>GET /api/public/download/:shareCode\<close>

definition public_download :: "Env \<Rightarrow> string \<Rightarrow> string option \<Rightarrow> DB \<Rightarrow> Response \<times> DB" where
  "public_download env code password db =
    (if fault env = Some 0 then (ServerError, db) else
     case getFileByShareCode db code of
       None \<Rightarrow> (ErrorJson 404 ''File not found'', db)
     | Some file \<Rightarrow>
         if \<not> File.isPublic file
           then (ErrorJson 403 ''File is not publicly accessible'', db)
         else if File.isLocked file \<and> \<not> truthy password then (PasswordRequired, db)
         else if File.isLocked file \<and>
                 \<not> validatePassword env password (orEmpty (File.shareCode file))
           then (ErrorJson 401 ''Invalid password'', db)
         else if expired (now env) (File.expiresAt file)
           then (ErrorJson 410 ''File has expired'', db)
         else if limitExceeded (File.downloadLimit file) (File.downloadCount file)
           then (ErrorJson 410 ''Download limit exceeded'', db)
         else if \<not> existsSync env (File.storagePath file)
           then (ErrorJson 404 ''File not found on server'', db)
         else if fault env = Some 1 then (ServerError, db)
         else
           let db1 = updateFile (File.id' file)
                 (noFileUpdate\<lparr> FileUpdate.downloadCount :=
                     Some (File.downloadCount file + 1) \<rparr>) db
           in if fault env = Some 2 then (ServerError, db1)
           else
             let db2 = createDownloadLog (uuid env) (now env)
                   \<lparr> InsertDownloadLog.fileId = File.id' file,
                     InsertDownloadLog.sharedLinkId = None,
                     InsertDownloadLog.downloaderIp = orElse (ip env) (remoteAddress env),
                     InsertDownloadLog.downloaderUserAgent = userAgent env,
                     InsertDownloadLog.downloadMethod = ''public_link'' \<rparr> db1
             in if setHeaderThrows env file then (ServerError, db2)
                else (SendFile (File.storagePath file) (File.originalName file), db2))"

subsection \<open>POST /api/download/link/:token\<close>

text \<open>\<open>password\<close> is \<open>req.body.password\<close> and reaches \<open>validatePassword\<close> as it is, also
  when it is \<open>undefined\<close>.\<close>

definition download_link :: "Env \<Rightarrow> string \<Rightarrow> string option \<Rightarrow> DB \<Rightarrow> Response \<times> DB" where
  "download_link env token password db =
    (if fault env = Some 0 then (ServerError, db) else
     case getSharedLink db token of
       None \<Rightarrow> (ErrorJson 404 ''Share link not found'', db)
     | Some link \<Rightarrow>
         if \<not> SharedLink.isActive link then (ErrorJson 404 ''Share link not found'', db)
         else if truthy (SharedLink.passwordHash link) \<and>
                 \<not> validatePassword env password (the (SharedLink.passwordHash link))
           then (ErrorJson 401 ''Invalid password'', db)
         else if expired (now env) (SharedLink.expiresAt link)
           then (ErrorJson 410 ''Share link has expired'', db)
         else if limitExceeded (SharedLink.downloadLimit link) (SharedLink.downloadCount link)
           then (ErrorJson 429 ''Download limit exceeded'', db)
         else if fault env = Some 1 then (ServerError, db)
         else
           case getFile db (SharedLink.fileId link) of
             None \<Rightarrow> (ErrorJson 404 ''File not found'', db)
           | Some file \<Rightarrow>
               if fault env = Some 2 then (ServerError, db)
               else
                 let db1 = createDownloadLog (uuid env) (now env)
                       \<lparr> InsertDownloadLog.fileId = File.id' file,
                         InsertDownloadLog.sharedLinkId = Some (SharedLink.id' link),
                         InsertDownloadLog.downloaderIp = ip env,
                         InsertDownloadLog.downloaderUserAgent = orElse (userAgent env) None,
                         InsertDownloadLog.downloadMethod = ''link'' \<rparr> db
                 in if fault env = Some 3 then (ServerError, db1)
                 else
                   let db2 = updateSharedLink (SharedLink.id' link)
                         \<lparr> LinkUpdate.downloadCount = Some (SharedLink.downloadCount link + 1),
                           LinkUpdate.isActive = None \<rparr> db1
                   in if fault env = Some 4 then (ServerError, db2)
                   else
                     let db3 = updateFile (File.id' file)
                           (noFileUpdate\<lparr> FileUpdate.downloadCount :=
                               Some (File.downloadCount file + 1) \<rparr>) db2
                     in (SendFile (File.storagePath file) (File.originalName file), db3))"

subsection \<open>POST /api/download/shared/:token\<close>

definition download_shared :: "Env \<Rightarrow> string \<Rightarrow> string option \<Rightarrow> DB \<Rightarrow> Response \<times> DB" where
  "download_shared env token password db =
    (if fault env = Some 0 then (ServerError, db) else
     case getSharedLink db token of
       None \<Rightarrow> (ErrorJson 404 ''Shared link not found'', db)
     | Some sharedLink \<Rightarrow>
         if \<not> SharedLink.isActive sharedLink
           then (ErrorJson 404 ''Shared link not found'', db)
         else if expired (now env) (SharedLink.expiresAt sharedLink)
           then (ErrorJson 410 ''Shared link has expired'', db)
         else if limitExceeded (SharedLink.downloadLimit sharedLink)
                   (SharedLink.downloadCount sharedLink)
           then (ErrorJson 410 ''Download limit exceeded'', db)
         else if truthy (SharedLink.passwordHash sharedLink) \<and> \<not> truthy password
           then (PasswordRequired, db)
         else if truthy (SharedLink.passwordHash sharedLink) \<and>
                 \<not> validateFilePassword env password
                     (the (SharedLink.passwordHash sharedLink))
           then (ErrorJson 401 ''Invalid password'', db)
         else if fault env = Some 1 then (ServerError, db)
         else
           case getFile db (SharedLink.fileId sharedLink) of
             None \<Rightarrow> (ErrorJson 404 ''File not found'', db)
           | Some file \<Rightarrow>
               if \<not> existsSync env (File.storagePath file)
                 then (ErrorJson 404 ''File not found on server'', db)
               else if fault env = Some 2 then (ServerError, db)
               else
                 let db1 = updateSharedLink (SharedLink.id' sharedLink)
                       \<lparr> LinkUpdate.downloadCount =
                           Some (SharedLink.downloadCount sharedLink + 1),
                         LinkUpdate.isActive = None \<rparr> db
                 in if fault env = Some 3 then (ServerError, db1)
                 else
                   let db2 = createDownloadLog (uuid env) (now env)
                         \<lparr> InsertDownloadLog.fileId = File.id' file,
                           InsertDownloadLog.sharedLinkId = Some (SharedLink.id' sharedLink),
                           InsertDownloadLog.downloaderIp = orElse (ip env) (remoteAddress env),
                           InsertDownloadLog.downloaderUserAgent = userAgent env,
                           InsertDownloadLog.downloadMethod = ''shared_link'' \<rparr> db1
                   in if setHeaderThrows env file then (ServerError, db2)
                      else (SendFile (File.storagePath file) (File.originalName file),
                            db2))"

section \<open>Overlapping requests to POST /api/download/link/:token\<close>

text \<open>
  The handler is an \<open>async\<close> function: it runs without interruption up to each \<open>await\<close>
  of a storage call, and other requests may run while it waits. A request in flight is
  therefore at one of five awaits, holding the rows it has read so far, or has finished.
  \<open>download_link_step\<close> performs the awaited call and runs the handler up to its next
  await.
\<close>

datatype LinkRequest =
    Start
  | HasLink SharedLink
  | HasFile SharedLink File
  | Logged SharedLink File
  | Counted SharedLink File
  | Finished Response

fun download_link_step ::
  "Env \<Rightarrow> string \<Rightarrow> string option \<Rightarrow> LinkRequest \<Rightarrow> DB \<Rightarrow> LinkRequest \<times> DB" where
  "download_link_step env token password Start db =
    (if fault env = Some 0 then (Finished ServerError, db) else
     case getSharedLink db token of
       None \<Rightarrow> (Finished (ErrorJson 404 ''Share link not found''), db)
     | Some link \<Rightarrow>
         if \<not> SharedLink.isActive link
           then (Finished (ErrorJson 404 ''Share link not found''), db)
         else if truthy (SharedLink.passwordHash link) \<and>
                 \<not> validatePassword env password (the (SharedLink.passwordHash link))
           then (Finished (ErrorJson 401 ''Invalid password''), db)
         else if expired (now env) (SharedLink.expiresAt link)
           then (Finished (ErrorJson 410 ''Share link has expired''), db)
         else if limitExceeded (SharedLink.downloadLimit link) (SharedLink.downloadCount link)
           then (Finished (ErrorJson 429 ''Download limit exceeded''), db)
         else (HasLink link, db))"
| "download_link_step env token password (HasLink link) db =
    (if fault env = Some 1 then (Finished ServerError, db) else
     case getFile db (SharedLink.fileId link) of
       None \<Rightarrow> (Finished (ErrorJson 404 ''File not found''), db)
     | Some file \<Rightarrow> (HasFile link file, db))"
| "download_link_step env token password (HasFile link file) db =
    (if fault env = Some 2 then (Finished ServerError, db) else
     (Logged link file,
      createDownloadLog (uuid env) (now env)
        \<lparr> InsertDownloadLog.fileId = File.id' file,
          InsertDownloadLog.sharedLinkId = Some (SharedLink.id' link),
          InsertDownloadLog.downloaderIp = ip env,
          InsertDownloadLog.downloaderUserAgent = orElse (userAgent env) None,
          InsertDownloadLog.downloadMethod = ''link'' \<rparr> db))"
| "download_link_step env token password (Logged link file) db =
    (if fault env = Some 3 then (Finished ServerError, db) else
     (Counted link file,
      updateSharedLink (SharedLink.id' link)
        \<lparr> LinkUpdate.downloadCount = Some (SharedLink.downloadCount link + 1),
          LinkUpdate.isActive = None \<rparr> db))"
| "download_link_step env token password (Counted link file) db =
    (if fault env = Some 4 then (Finished ServerError, db) else
     (Finished (SendFile (File.storagePath file) (File.originalName file)),
      updateFile (File.id' file)
        (noFileUpdate\<lparr> FileUpdate.downloadCount := Some (File.downloadCount file + 1) \<rparr>)
        db))"
| "download_link_step env token password (Finished r) db = (Finished r, db)"

text \<open>One request run from its start through its five awaits with nothing in between.\<close>

definition download_link_alone ::
  "Env \<Rightarrow> string \<Rightarrow> string option \<Rightarrow> DB \<Rightarrow> LinkRequest \<times> DB" where
  "download_link_alone env token password db =
     (case download_link_step env token password Start db of (r1, db1) \<Rightarrow>
      case download_link_step env token password r1 db1 of (r2, db2) \<Rightarrow>
      case download_link_step env token password r2 db2 of (r3, db3) \<Rightarrow>
      case download_link_step env token password r3 db3 of (r4, db4) \<Rightarrow>
      download_link_step env token password r4 db4)"

text \<open>
  Requests to one token with one password, each with its own clock, log key and client,
  advanced in the order a schedule gives: entry \<open>i\<close> of the schedule lets request \<open>i\<close>
  run to its next await.
\<close>

fun interleave ::
  "string \<Rightarrow> string option \<Rightarrow> nat list \<Rightarrow> (Env \<times> LinkRequest) list \<Rightarrow> DB
     \<Rightarrow> (Env \<times> LinkRequest) list \<times> DB" where
  "interleave token password [] reqs db = (reqs, db)"
| "interleave token password (i # schedule) reqs db =
     (if i < length reqs then
        (case download_link_step (fst (reqs ! i)) token password (snd (reqs ! i)) db of
           (r, db') \<Rightarrow>
             interleave token password schedule (reqs[i := (fst (reqs ! i), r)]) db')
      else interleave token password schedule reqs db)"

text \<open>The requests that have been answered with the file.\<close>

fun allowed :: "(Env \<times> LinkRequest) list \<Rightarrow> nat" where
  "allowed [] = 0"
| "allowed ((env, Finished (SendFile path name)) # reqs) = Suc (allowed reqs)"
| "allowed (req # reqs) = allowed reqs"

text \<open>Requests handled one after the other, each finished before the next starts.\<close>

fun sequential :: "Env list \<Rightarrow> string \<Rightarrow> string option \<Rightarrow> DB \<Rightarrow> Response list \<times> DB" where
  "sequential [] token password db = ([], db)"
| "sequential (env # envs) token password db =
     (case download_link env token password db of (r, db') \<Rightarrow>
      case sequential envs token password db' of (rs, db'') \<Rightarrow> (r # rs, db''))"

text \<open>
  A request that passes every check of the handler other than the download limit: no
  storage call fails, the link is active and unexpired at the request's clock, and the
  password, when the link has a hash, is accepted.
\<close>

definition passes :: "Env \<Rightarrow> string option \<Rightarrow> SharedLink \<Rightarrow> bool" where
  "passes env password l =
     (fault env = None \<and> SharedLink.isActive l \<and>
      \<not> expired (now env) (SharedLink.expiresAt l) \<and>
      (truthy (SharedLink.passwordHash l)
         \<longrightarrow> validatePassword env password (the (SharedLink.passwordHash l))))"

definition limitReached :: "Response \<Rightarrow> bool" where
  "limitReached r = (r = ErrorJson 429 ''Download limit exceeded'')"

section \<open>Sample inputs\<close>

text \<open>
  Concrete rows and a concrete request, at which the theorems below are instantiated.
  \<open>sampleCompare\<close> stands in for \<open>bcrypt.compareSync\<close> there: it throws when the password is
  \<open>undefined\<close> or the stored hash does not start with \<open>$2b$\<close>, and otherwise accepts the
  password whose reversal follows that prefix. \<open>sampleInvalidHeader\<close> is Node's rule on
  single-byte characters: a control character other than the tab is refused.
\<close>

definition sampleCompare :: "string option \<Rightarrow> string \<Rightarrow> unit + bool" where
  "sampleCompare password hash =
     (case password of
        None \<Rightarrow> Inl ()
      | Some p \<Rightarrow> if take 4 hash = ''$2b$'' then Inr (drop 4 hash = rev p) else Inl ())"

definition sampleInvalidHeader :: "string \<Rightarrow> bool" where
  "sampleInvalidHeader v =
     list_ex (\<lambda>c. ((of_char c :: nat) < 32 \<and> (of_char c :: nat) \<noteq> 9) \<or>
                  (of_char c :: nat) = 127) v"

definition sampleEnv :: Env where
  "sampleEnv = \<lparr> now = 2000, uuid = ''log1'', ip = Some ''10.0.0.1'', remoteAddress = None,
     userAgent = Some ''curl'', compareSync = sampleCompare, existsSync = (\<lambda>p. True),
     invalidHeaderValue = sampleInvalidHeader, fault = None \<rparr>"

definition sampleFile :: File where
  "sampleFile = \<lparr> File.id' = ''f1'', File.userId = ''u1'', File.originalName = ''report.pdf'',
     File.fileSize = 1024, File.fileType = ''application/pdf'',
     File.storagePath = ''uploads/f1'', File.shareCode = Some ''ABCD1234'',
     File.isPublic = True, File.isLocked = False, File.downloadLimit = None,
     File.downloadCount = 0, File.expiresAt = None, File.createdAt = 0,
     File.updatedAt = 0 \<rparr>"

definition sampleLink :: SharedLink where
  "sampleLink = \<lparr> SharedLink.id' = ''l1'', SharedLink.fileId = ''f1'',
     SharedLink.linkType = ''public'', SharedLink.shareToken = ''tok'',
     SharedLink.recipientEmail = None, SharedLink.passwordHash = None,
     SharedLink.expiresAt = None, SharedLink.downloadLimit = None,
     SharedLink.downloadCount = 0, SharedLink.isActive = True,
     SharedLink.createdAt = 0 \<rparr>"

definition sampleDB :: "File \<Rightarrow> SharedLink \<Rightarrow> DB" where
  "sampleDB f l = \<lparr> files = [f], sharedLinks = [l], downloadLogs = [] \<rparr>"

text \<open>A sequence of \<open>MemStorage\<close> operations and the file it leaves stored.\<close>

definition sampleInsert :: "string option \<Rightarrow> InsertFile" where
  "sampleInsert code = \<lparr> InsertFile.userId = ''u1'', InsertFile.originalName = ''report.pdf'',
     InsertFile.fileSize = 1024, InsertFile.fileType = ''application/pdf'',
     InsertFile.storagePath = ''uploads/f1'', InsertFile.shareCode = code,
     InsertFile.isPublic = Some True, InsertFile.isLocked = None,
     InsertFile.downloadLimit = None, InsertFile.downloadCount = None,
     InsertFile.expiresAt = None \<rparr>"

definition sampleOps :: "MemOp list" where
  "sampleOps =
     [CreateFile ''id1'' 1 (sampleInsert (Some ''AAAA1111'')),
      CreateFile ''id2'' 2 (sampleInsert (Some ''BBBB2222'')),
      UpdateFile ''id2'' 3 (noFileUpdate\<lparr>FileUpdate.shareCode := Some (Some ''CCCC3333'')\<rparr>),
      DeleteFile ''id1'']"

definition sampleStored :: MemFile where
  "sampleStored = \<lparr> MemFile.id' = ''id2'', MemFile.userId = ''u1'',
     MemFile.originalName = ''report.pdf'', MemFile.fileSize = 1024,
     MemFile.fileType = ''application/pdf'', MemFile.storagePath = ''uploads/f1'',
     MemFile.shareCode = Some ''CCCC3333'', MemFile.isPublic = Some True,
     MemFile.isLocked = None, MemFile.downloadLimit = None, MemFile.downloadCount = None,
     MemFile.expiresAt = None, MemFile.createdAt = 2, MemFile.updatedAt = 3 \<rparr>"

text \<open>Two requests for a link of limit 1, each advanced in turn to its next await.\<close>

definition twoOverlapping :: "(Env \<times> LinkRequest) list \<times> DB" where
  "twoOverlapping =
     interleave ''tok'' None [0, 1, 0, 1, 0, 1, 0, 1, 0, 1]
       [(sampleEnv, Start), (sampleEnv\<lparr>uuid := ''log2''\<rparr>, Start)]
       (sampleDB sampleFile (sampleLink\<lparr>SharedLink.downloadLimit := Some 1\<rparr>))"

section \<open>Properties of counters and responses\<close>

text \<open>A response that serves the file's bytes.\<close>

fun served :: "Response \<Rightarrow> bool" where
  "served (SendFile path name) = True"
| "served r = False"




text \<open>
  The counter invariant in the specification's words: the counter is not negative and,
  whenever a limit is set, not above it.
\<close>

definition countWithinLimit :: "int option \<Rightarrow> int \<Rightarrow> bool" where
  "countWithinLimit lim c = (0 \<le> c \<and> (case lim of None \<Rightarrow> True | Some l \<Rightarrow> c \<le> l))"

text \<open>The same invariant for the limits the guard enforces, the positive ones.\<close>

definition countWithinPositiveLimit :: "int option \<Rightarrow> int \<Rightarrow> bool" where
  "countWithinPositiveLimit lim c =
     (0 \<le> c \<and> (case lim of None \<Rightarrow> True | Some l \<Rightarrow> 0 < l \<longrightarrow> c \<le> l))"

definition filesWithinLimit :: "DB \<Rightarrow> bool" where
  "filesWithinLimit db =
     list_all (\<lambda>f. countWithinPositiveLimit (File.downloadLimit f) (File.downloadCount f))
       (files db)"

definition linksWithinLimit :: "DB \<Rightarrow> bool" where
  "linksWithinLimit db =
     list_all (\<lambda>l. countWithinPositiveLimit (SharedLink.downloadLimit l)
                    (SharedLink.downloadCount l))
       (sharedLinks db)"

text \<open>The primary keys \<open>files.id\<close> and \<open>shared_links.id\<close>.\<close>

definition primaryKeys :: "DB \<Rightarrow> bool" where
  "primaryKeys db =
     (distinct (map File.id' (files db)) \<and> distinct (map SharedLink.id' (sharedLinks db)))"

text \<open>
  What the share-code index of a \<open>MemStorage\<close> has to satisfy: a code it maps is a
  non-empty string, the file identifier it maps the code to is stored and the stored file
  carries that code; and every file is stored under its own \<open>id\<close>.
\<close>

definition Mem_indexSound :: "MemStorage \<Rightarrow> bool" where
  "Mem_indexSound s =
     ((\<forall>c i. map_of (shareCodeToFileId s) c = Some i \<longrightarrow>
          c \<noteq> [] \<and>
          (\<exists>f. map_of (MemStorage.files s) i = Some f \<and> MemFile.shareCode f = Some c)) \<and>
      (\<forall>i f. map_of (MemStorage.files s) i = Some f \<longrightarrow> MemFile.id' f = i))"

section \<open>Read-only information routes\<close>

text \<open>
  Claim C8. The information routes, \<open>GET /api/public/file/:shareCode\<close> and
  \<open>GET /api/shared/:token\<close> (and \<open>GET /api/shared-links/:token\<close>, which takes no
  password), leave the whole database as it was, whatever they answer, and asking again
  with the same password and the same clock gives the same answer.
\<close>

theorem checkAccess_read_only:
  "snd (public_file env code password db) = db \<and>
   snd (shared_info env token password db) = db \<and>
   snd (shared_links_info env token db) = db \<and>
   fst (public_file env code password (snd (public_file env code password db)))
     = fst (public_file env code password db) \<and>
   fst (shared_info env token password (snd (shared_info env token password db)))
     = fst (shared_info env token password db) \<and>
   fst (shared_links_info env token (snd (shared_links_info env token db)))
     = fst (shared_links_info env token db)"
proof -
  have pf: "snd (public_file env code password db) = db"
    by (simp add: public_file_def split: option.split)
  have si: "snd (shared_info env token password db) = db"
    by (simp add: shared_info_def split: option.split)
  have sl: "snd (shared_links_info env token db) = db"
    by (simp add: shared_links_info_def split: option.split)
  show ?thesis by (simp add: pf si sl)
qed

section \<open>Lookups after an update\<close>

lemma find_map_preserved:
  assumes "find P xs = Some x" and "\<And>y. P (g y) = P y"
  shows "find P (map g xs) = Some (g x)"
  using assms(1) by (induction xs) (auto simp: assms(2) split: if_splits)

lemma find_map_none:
  assumes "find P xs = None" and "\<And>y. P (g y) = P y"
  shows "find P (map g xs) = None"
  using assms(1) by (induction xs) (auto simp: assms(2) split: if_splits)

lemma find_Some_holds: "find P xs = Some x \<Longrightarrow> P x \<and> x \<in> set xs"
  by (induction xs) (auto split: if_splits)

lemma setFile_count_shareCode [simp]:
  "File.shareCode (setFile (noFileUpdate\<lparr>FileUpdate.downloadCount := Some n\<rparr>) f)
     = File.shareCode f"
  by (simp add: setFile_def noFileUpdate_def)

lemma setFile_id [simp]: "File.id' (setFile u f) = File.id' f"
  by (simp add: setFile_def)

lemma setFile_count:
  "setFile (noFileUpdate\<lparr>FileUpdate.downloadCount := Some n\<rparr>) f
     = f\<lparr>File.downloadCount := n\<rparr>"
  by (simp add: setFile_def noFileUpdate_def)

lemma setLink_token [simp]: "SharedLink.shareToken (setLink u l) = SharedLink.shareToken l"
  by (simp add: setLink_def)

lemma setLink_id [simp]: "SharedLink.id' (setLink u l) = SharedLink.id' l"
  by (simp add: setLink_def)

lemma setLink_count:
  "setLink \<lparr>LinkUpdate.downloadCount = Some n, LinkUpdate.isActive = None\<rparr> l
     = l\<lparr>SharedLink.downloadCount := n\<rparr>"
  by (simp add: setLink_def)

lemma getFileByShareCode_updateFile_count:
  assumes "getFileByShareCode db c = Some f"
  shows "getFileByShareCode
           (updateFile (File.id' f) (noFileUpdate\<lparr>FileUpdate.downloadCount := Some n\<rparr>) db) c
         = Some (f\<lparr>File.downloadCount := n\<rparr>)"
proof -
  let ?g = "\<lambda>x. if File.id' x = File.id' f
                 then setFile (noFileUpdate\<lparr>FileUpdate.downloadCount := Some n\<rparr>) x else x"
  have "find (\<lambda>x. File.shareCode x = Some c) (map ?g (files db)) = Some (?g f)"
    using assms unfolding getFileByShareCode_def
    by (rule find_map_preserved) simp
  then show ?thesis
    by (simp add: getFileByShareCode_def updateFile_def setFile_count)
qed

lemma getFile_updateFile_count:
  assumes "getFile db i = Some f"
  shows "getFile (updateFile i (noFileUpdate\<lparr>FileUpdate.downloadCount := Some n\<rparr>) db) i
         = Some (f\<lparr>File.downloadCount := n\<rparr>)"
proof -
  let ?g = "\<lambda>x. if File.id' x = i
                 then setFile (noFileUpdate\<lparr>FileUpdate.downloadCount := Some n\<rparr>) x else x"
  have idf: "File.id' f = i"
    using assms find_Some_holds [of "\<lambda>x. File.id' x = i" "files db" f]
    by (simp add: getFile_def)
  have "find (\<lambda>x. File.id' x = i) (map ?g (files db)) = Some (?g f)"
    using assms unfolding getFile_def
    by (rule find_map_preserved) simp
  then show ?thesis
    by (simp add: getFile_def updateFile_def setFile_count idf)
qed

lemma getSharedLink_updateSharedLink_count:
  assumes "getSharedLink db t = Some l"
  shows "getSharedLink
           (updateSharedLink (SharedLink.id' l)
              \<lparr>LinkUpdate.downloadCount = Some n, LinkUpdate.isActive = None\<rparr> db) t
         = Some (l\<lparr>SharedLink.downloadCount := n\<rparr>)"
proof -
  let ?g = "\<lambda>x. if SharedLink.id' x = SharedLink.id' l
                 then setLink \<lparr>LinkUpdate.downloadCount = Some n, LinkUpdate.isActive = None\<rparr> x
                 else x"
  have "find (\<lambda>x. SharedLink.shareToken x = t) (map ?g (sharedLinks db)) = Some (?g l)"
    using assms unfolding getSharedLink_def
    by (rule find_map_preserved) simp
  then show ?thesis
    by (simp add: getSharedLink_def updateSharedLink_def setLink_count)
qed

lemma getters_createDownloadLog [simp]:
  "getFile (createDownloadLog u t ins db) i = getFile db i"
  "getFileByShareCode (createDownloadLog u t ins db) c = getFileByShareCode db c"
  "getSharedLink (createDownloadLog u t ins db) k = getSharedLink db k"
  by (simp_all add: getFile_def getFileByShareCode_def getSharedLink_def createDownloadLog_def)

lemma getters_updateFile [simp]:
  "getSharedLink (updateFile i u db) k = getSharedLink db k"
  by (simp add: getSharedLink_def updateFile_def)

lemma getters_updateSharedLink [simp]:
  "getFile (updateSharedLink i u db) j = getFile db j"
  "getFileByShareCode (updateSharedLink i u db) c = getFileByShareCode db c"
  by (simp_all add: getFile_def getFileByShareCode_def updateSharedLink_def)

section \<open>Locked files and the share-code download route\<close>

text \<open>
  Claim C1, at the input where the code departs from it. A public file that is locked is
  served by \<open>GET /api/download/code/:shareCode\<close> to a request that carries no password at
  all: the route reads neither \<open>isLocked\<close> nor \<open>isPublic\<close>. The sibling route
  \<open>GET /api/public/download/:shareCode\<close> answers the same request with
  \<open>Password required\<close>.
\<close>

theorem download_code_serves_locked_file:
  "fst (download_code sampleEnv ''ABCD1234''
          (sampleDB (sampleFile\<lparr>File.isLocked := True\<rparr>) sampleLink))
     = SendFile ''uploads/f1'' ''report.pdf'' \<and>
   fst (public_download sampleEnv ''ABCD1234'' None
          (sampleDB (sampleFile\<lparr>File.isLocked := True\<rparr>) sampleLink))
     = PasswordRequired"
  by (simp add: download_code_def public_download_def getFileByShareCode_def sampleDB_def
      sampleFile_def sampleEnv_def expired_def limitExceeded_def truthy_def Let_def)

section \<open>Order of the password and expiry checks\<close>

text \<open>
  Claim C3, at the input where the code departs from it. The link has expired (its
  \<open>expiresAt\<close> is 1000 and the clock reads 2000) and has a password hash; a request with a
  wrong password gets \<open>Invalid password\<close> from \<open>POST /api/download/link/:token\<close>, which
  checks the password first, and \<open>Shared link has expired\<close> from the sibling route
  \<open>POST /api/download/shared/:token\<close>, which checks the expiry first.
\<close>

theorem download_link_checks_password_before_expiry:
  "download_link sampleEnv ''tok'' (Some ''wrong'')
     (sampleDB sampleFile
        (sampleLink\<lparr>SharedLink.passwordHash := Some ''$2b$terces'',
                     SharedLink.expiresAt := Some 1000\<rparr>))
     = (ErrorJson 401 ''Invalid password'',
        sampleDB sampleFile
          (sampleLink\<lparr>SharedLink.passwordHash := Some ''$2b$terces'',
                       SharedLink.expiresAt := Some 1000\<rparr>)) \<and>
   fst (download_shared sampleEnv ''tok'' (Some ''wrong'')
     (sampleDB sampleFile
        (sampleLink\<lparr>SharedLink.passwordHash := Some ''$2b$terces'',
                     SharedLink.expiresAt := Some 1000\<rparr>)))
     = ErrorJson 410 ''Shared link has expired''"
  by (simp add: download_link_def download_shared_def getSharedLink_def sampleDB_def
      sampleLink_def sampleEnv_def expired_def truthy_def validatePassword_def
      sampleCompare_def)

section \<open>A verification that throws\<close>

lemma download_link_rejected:
  assumes "\<not> validatePassword env password hash" and "getSharedLink db token = Some l"
    and "SharedLink.passwordHash l = Some hash" and "hash \<noteq> []"
  shows "\<not> served (fst (download_link env token password db))"
    and "snd (download_link env token password db) = db"
  using assms by (simp_all add: download_link_def truthy_def)

lemma download_shared_rejected:
  assumes "\<not> validateFilePassword env password hash" and "getSharedLink db token = Some l"
    and "SharedLink.passwordHash l = Some hash" and "hash \<noteq> []"
  shows "\<not> served (fst (download_shared env token password db))"
    and "snd (download_shared env token password db) = db"
  using assms by (simp_all add: download_shared_def truthy_def)

text \<open>
  Claim C7. Whenever \<open>bcrypt.compareSync\<close> throws on a password and a stored hash,
  \<open>validatePassword\<close> and \<open>validateFilePassword\<close> both return false: the exception is
  caught and counts as a refusal. The two download routes of a link that carries this
  hash then do not serve the file and leave the database unchanged.
\<close>

theorem validate_fails_closed:
  "compareSync env password hash = Inl e \<Longrightarrow>
     \<not> validatePassword env password hash \<and> \<not> validateFilePassword env password hash \<and>
     (getSharedLink db token = Some l \<and> SharedLink.passwordHash l = Some hash \<and> hash \<noteq> []
      \<longrightarrow> \<not> served (fst (download_link env token password db)) \<and>
          snd (download_link env token password db) = db \<and>
          \<not> served (fst (download_shared env token password db)) \<and>
          snd (download_shared env token password db) = db)"
proof -
  assume throws: "compareSync env password hash = Inl e"
  have v: "\<not> validatePassword env password hash"
    and vf: "\<not> validateFilePassword env password hash"
    using throws by (simp_all add: validatePassword_def validateFilePassword_def)
  show ?thesis
    using v vf download_link_rejected [OF v] download_shared_rejected [OF vf] by blast
qed

theorem validate_fails_closed_witness:
  "compareSync sampleEnv (Some ''secret'') ''not-a-bcrypt-hash'' = Inl () \<and>
   \<not> validatePassword sampleEnv (Some ''secret'') ''not-a-bcrypt-hash'' \<and>
   \<not> validateFilePassword sampleEnv (Some ''secret'') ''not-a-bcrypt-hash'' \<and>
   fst (download_link sampleEnv ''tok'' (Some ''secret'')
          (sampleDB sampleFile
             (sampleLink\<lparr>SharedLink.passwordHash := Some ''not-a-bcrypt-hash''\<rparr>)))
     = ErrorJson 401 ''Invalid password'' \<and>
   \<not> served (fst (download_shared sampleEnv ''tok'' (Some ''secret'')
          (sampleDB sampleFile
             (sampleLink\<lparr>SharedLink.passwordHash := Some ''not-a-bcrypt-hash''\<rparr>)))) \<and>
   snd (download_shared sampleEnv ''tok'' (Some ''secret'')
          (sampleDB sampleFile
             (sampleLink\<lparr>SharedLink.passwordHash := Some ''not-a-bcrypt-hash''\<rparr>)))
     = sampleDB sampleFile
         (sampleLink\<lparr>SharedLink.passwordHash := Some ''not-a-bcrypt-hash''\<rparr>)"
proof -
  let ?l = "sampleLink\<lparr>SharedLink.passwordHash := Some ''not-a-bcrypt-hash''\<rparr>"
  have throws: "compareSync sampleEnv (Some ''secret'') ''not-a-bcrypt-hash'' = Inl ()"
    by (simp add: sampleEnv_def sampleCompare_def)
  have l: "getSharedLink (sampleDB sampleFile ?l) ''tok'' = Some ?l"
      "SharedLink.passwordHash ?l = Some ''not-a-bcrypt-hash''"
    by (simp_all add: getSharedLink_def sampleDB_def sampleLink_def)
  have answer: "fst (download_link sampleEnv ''tok'' (Some ''secret'') (sampleDB sampleFile ?l))
      = ErrorJson 401 ''Invalid password''"
    by (simp add: download_link_def getSharedLink_def sampleDB_def sampleLink_def
        sampleEnv_def truthy_def validatePassword_def sampleCompare_def)
  show ?thesis
    using validate_fails_closed [OF throws, of "sampleDB sampleFile ?l" "''tok''" ?l]
      throws l answer
    by simp
qed

section \<open>The counter stays within a positive limit\<close>

lemma same_key_same_row:
  assumes "distinct (map k xs)" and "x \<in> set xs" and "y \<in> set xs" and "k x = k y"
  shows "x = y"
  using assms by (meson distinct_map inj_onD)

lemma not_exceeded_next_within:
  assumes "countWithinPositiveLimit lim c" and "\<not> limitExceeded lim c"
  shows "countWithinPositiveLimit lim (c + 1)"
  using assms
  by (auto simp: countWithinPositiveLimit_def limitExceeded_def split: option.splits)

lemma updateFile_within:
  assumes "primaryKeys db" and "filesWithinLimit db" and "f \<in> set (files db)"
    and "\<not> limitExceeded (File.downloadLimit f) (File.downloadCount f)"
  shows "filesWithinLimit
           (updateFile (File.id' f)
              (noFileUpdate\<lparr>FileUpdate.downloadCount := Some (File.downloadCount f + 1)\<rparr>) db)"
proof -
  have old: "countWithinPositiveLimit (File.downloadLimit x) (File.downloadCount x)"
    if "x \<in> set (files db)" for x
    using assms(2) that by (simp add: filesWithinLimit_def list_all_iff)
  have new: "countWithinPositiveLimit (File.downloadLimit x) (File.downloadCount f + 1)"
    if "x \<in> set (files db)" and "File.id' x = File.id' f" for x
  proof -
    have "x = f"
      using same_key_same_row [of File.id' "files db" x f] assms(1,3) that
      by (simp add: primaryKeys_def)
    then show ?thesis
      using old [OF assms(3)] assms(4) by (simp add: not_exceeded_next_within)
  qed
  show ?thesis
    using old new
    by (auto simp: filesWithinLimit_def updateFile_def setFile_count list_all_iff)
qed

lemma updateSharedLink_within:
  assumes "primaryKeys db" and "linksWithinLimit db" and "l \<in> set (sharedLinks db)"
    and "\<not> limitExceeded (SharedLink.downloadLimit l) (SharedLink.downloadCount l)"
  shows "linksWithinLimit
           (updateSharedLink (SharedLink.id' l)
              \<lparr>LinkUpdate.downloadCount = Some (SharedLink.downloadCount l + 1),
               LinkUpdate.isActive = None\<rparr> db)"
proof -
  have old: "countWithinPositiveLimit (SharedLink.downloadLimit x) (SharedLink.downloadCount x)"
    if "x \<in> set (sharedLinks db)" for x
    using assms(2) that by (simp add: linksWithinLimit_def list_all_iff)
  have new: "countWithinPositiveLimit (SharedLink.downloadLimit x)
               (SharedLink.downloadCount l + 1)"
    if "x \<in> set (sharedLinks db)" and "SharedLink.id' x = SharedLink.id' l" for x
  proof -
    have "x = l"
      using same_key_same_row [of SharedLink.id' "sharedLinks db" x l] assms(1,3) that
      by (simp add: primaryKeys_def)
    then show ?thesis
      using old [OF assms(3)] assms(4) by (simp add: not_exceeded_next_within)
  qed
  show ?thesis
    using old new
    by (auto simp: linksWithinLimit_def updateSharedLink_def setLink_count list_all_iff)
qed

lemma within_other_tables [simp]:
  "filesWithinLimit (createDownloadLog u t ins db) = filesWithinLimit db"
  "linksWithinLimit (createDownloadLog u t ins db) = linksWithinLimit db"
  "linksWithinLimit (updateFile i fu db) = linksWithinLimit db"
  "filesWithinLimit (updateSharedLink j lu db) = filesWithinLimit db"
  by (simp_all add: filesWithinLimit_def linksWithinLimit_def createDownloadLog_def
      updateFile_def updateSharedLink_def)

lemma primaryKeys_createDownloadLog [simp]:
  "primaryKeys (createDownloadLog u t ins db) = primaryKeys db"
  by (simp add: primaryKeys_def createDownloadLog_def)

lemma tables_createDownloadLog [simp]:
  "files (createDownloadLog u t ins db) = files db"
  "sharedLinks (createDownloadLog u t ins db) = sharedLinks db"
  by (simp_all add: createDownloadLog_def)

lemma getFileByShareCode_in_files:
  "getFileByShareCode db c = Some f \<Longrightarrow> f \<in> set (files db)"
  using find_Some_holds [of "\<lambda>f. File.shareCode f = Some c" "files db" f]
  by (simp add: getFileByShareCode_def)

lemma getSharedLink_in_links:
  "getSharedLink db t = Some l \<Longrightarrow> l \<in> set (sharedLinks db)"
  using find_Some_holds [of "\<lambda>l. SharedLink.shareToken l = t" "sharedLinks db" l]
  by (simp add: getSharedLink_def)

lemma download_code_within:
  assumes "primaryKeys db" and "filesWithinLimit db"
  shows "filesWithinLimit (snd (download_code env code db))"
proof (cases "getFileByShareCode db code")
  case None
  then show ?thesis using assms by (simp add: download_code_def)
next
  case (Some f)
  then have "f \<in> set (files db)" by (rule getFileByShareCode_in_files)
  then show ?thesis
    using assms Some
    by (auto simp: download_code_def Let_def intro!: updateFile_within)
qed

lemma public_download_within:
  assumes "primaryKeys db" and "filesWithinLimit db"
  shows "filesWithinLimit (snd (public_download env code password db))"
proof (cases "getFileByShareCode db code")
  case None
  then show ?thesis using assms by (simp add: public_download_def)
next
  case (Some f)
  then have "f \<in> set (files db)" by (rule getFileByShareCode_in_files)
  then show ?thesis
    using assms Some
    by (auto simp: public_download_def Let_def intro!: updateFile_within)
qed

lemma download_link_within:
  assumes "primaryKeys db" and "linksWithinLimit db"
  shows "linksWithinLimit (snd (download_link env token password db))"
proof (cases "getSharedLink db token")
  case None
  then show ?thesis using assms by (simp add: download_link_def)
next
  case (Some l)
  then have "l \<in> set (sharedLinks db)" by (rule getSharedLink_in_links)
  then show ?thesis
    using assms Some
    by (auto simp: download_link_def Let_def split: option.splits
        intro!: updateSharedLink_within)
qed

lemma download_shared_within:
  assumes "primaryKeys db" and "linksWithinLimit db"
  shows "linksWithinLimit (snd (download_shared env token password db))"
proof (cases "getSharedLink db token")
  case None
  then show ?thesis using assms by (simp add: download_shared_def)
next
  case (Some l)
  then have "l \<in> set (sharedLinks db)" by (rule getSharedLink_in_links)
  then show ?thesis
    using assms Some
    by (auto simp: download_shared_def Let_def split: option.splits
        intro!: updateSharedLink_within)
qed

lemma at_positive_limit_exceeded:
  "0 < l \<Longrightarrow> l \<le> c \<Longrightarrow> limitExceeded (Some l) c"
  by (simp add: limitExceeded_def)

lemma download_code_at_limit:
  assumes "getFileByShareCode db code = Some f" and "File.downloadLimit f = Some l"
    and "0 < l" and "l \<le> File.downloadCount f"
  shows "snd (download_code env code db) = db"
  using assms by (simp add: download_code_def at_positive_limit_exceeded)

lemma public_download_at_limit:
  assumes "getFileByShareCode db code = Some f" and "File.downloadLimit f = Some l"
    and "0 < l" and "l \<le> File.downloadCount f"
  shows "snd (public_download env code password db) = db"
  using assms by (simp add: public_download_def at_positive_limit_exceeded)

lemma download_link_at_limit:
  assumes "getSharedLink db token = Some k" and "SharedLink.downloadLimit k = Some l"
    and "0 < l" and "l \<le> SharedLink.downloadCount k"
  shows "snd (download_link env token password db) = db"
  using assms by (simp add: download_link_def at_positive_limit_exceeded)

lemma download_shared_at_limit:
  assumes "getSharedLink db token = Some k" and "SharedLink.downloadLimit k = Some l"
    and "0 < l" and "l \<le> SharedLink.downloadCount k"
  shows "snd (download_shared env token password db) = db"
  using assms by (simp add: download_shared_def at_positive_limit_exceeded)

text \<open>
  Claim C4, as stated, fails for a limit of 0. The file below has \<open>downloadLimit = 0\<close> and
  \<open>downloadCount = 0\<close>, so its counter is at its limit; \<open>GET /api/download/code\<close> serves it
  all the same and stores the counter 1, above the limit.
\<close>

theorem counter_passes_zero_limit:
  "list_all (\<lambda>f. countWithinLimit (File.downloadLimit f) (File.downloadCount f))
     (files (sampleDB (sampleFile\<lparr>File.downloadLimit := Some 0\<rparr>) sampleLink)) \<and>
   served (fst (download_code sampleEnv ''ABCD1234''
             (sampleDB (sampleFile\<lparr>File.downloadLimit := Some 0\<rparr>) sampleLink))) \<and>
   \<not> list_all (\<lambda>f. countWithinLimit (File.downloadLimit f) (File.downloadCount f))
       (files (snd (download_code sampleEnv ''ABCD1234''
                 (sampleDB (sampleFile\<lparr>File.downloadLimit := Some 0\<rparr>) sampleLink))))"
  by (simp add: download_code_def getFileByShareCode_def sampleDB_def sampleFile_def
      sampleEnv_def expired_def limitExceeded_def countWithinLimit_def Let_def
      updateFile_def createDownloadLog_def setFile_count)

text \<open>
  Claim C4, amended to the limits the guard enforces. With the primary keys in place,
  every run of a download route, whatever it answers and whichever storage call fails,
  keeps the counter of the target it grants through non-negative and, when that target's
  limit is positive, at most the limit: the two share-code routes for all files, the two
  token routes for all shared links. And a target whose counter has reached a positive
  limit is left untouched by the routes that grant through it.
\<close>

theorem counter_within_positive_limit:
  "(primaryKeys db \<and> filesWithinLimit db \<longrightarrow>
      filesWithinLimit (snd (download_code env code db)) \<and>
      filesWithinLimit (snd (public_download env code password db))) \<and>
   (primaryKeys db \<and> linksWithinLimit db \<longrightarrow>
      linksWithinLimit (snd (download_link env token password db)) \<and>
      linksWithinLimit (snd (download_shared env token password db))) \<and>
   (getFileByShareCode db code = Some f \<and> File.downloadLimit f = Some l \<and> 0 < l \<and>
    l \<le> File.downloadCount f \<longrightarrow>
      snd (download_code env code db) = db \<and>
      snd (public_download env code password db) = db) \<and>
   (getSharedLink db token = Some k \<and> SharedLink.downloadLimit k = Some l \<and> 0 < l \<and>
    l \<le> SharedLink.downloadCount k \<longrightarrow>
      snd (download_link env token password db) = db \<and>
      snd (download_shared env token password db) = db)"
proof (intro conjI impI)
  assume h: "primaryKeys db \<and> filesWithinLimit db"
  show "filesWithinLimit (snd (download_code env code db))"
    using h download_code_within by simp
  show "filesWithinLimit (snd (public_download env code password db))"
    using h public_download_within by simp
next
  assume h: "primaryKeys db \<and> linksWithinLimit db"
  show "linksWithinLimit (snd (download_link env token password db))"
    using h download_link_within by simp
  show "linksWithinLimit (snd (download_shared env token password db))"
    using h download_shared_within by simp
next
  assume h: "getFileByShareCode db code = Some f \<and> File.downloadLimit f = Some l \<and> 0 < l \<and>
    l \<le> File.downloadCount f"
  show "snd (download_code env code db) = db"
    using h download_code_at_limit by blast
  show "snd (public_download env code password db) = db"
    using h public_download_at_limit by blast
next
  assume h: "getSharedLink db token = Some k \<and> SharedLink.downloadLimit k = Some l \<and> 0 < l \<and>
    l \<le> SharedLink.downloadCount k"
  show "snd (download_link env token password db) = db"
    using h download_link_at_limit by blast
  show "snd (download_shared env token password db) = db"
    using h download_shared_at_limit by blast
qed


theorem counter_within_positive_limit_witness:
  "primaryKeys (sampleDB (sampleFile\<lparr>File.downloadLimit := Some 2, File.downloadCount := 2\<rparr>)
      (sampleLink\<lparr>SharedLink.downloadLimit := Some 2, SharedLink.downloadCount := 2\<rparr>)) \<and>
   filesWithinLimit
     (sampleDB (sampleFile\<lparr>File.downloadLimit := Some 2, File.downloadCount := 2\<rparr>)
        (sampleLink\<lparr>SharedLink.downloadLimit := Some 2, SharedLink.downloadCount := 2\<rparr>)) \<and>
   linksWithinLimit
     (sampleDB (sampleFile\<lparr>File.downloadLimit := Some 2, File.downloadCount := 2\<rparr>)
        (sampleLink\<lparr>SharedLink.downloadLimit := Some 2, SharedLink.downloadCount := 2\<rparr>)) \<and>
   filesWithinLimit (snd (download_code sampleEnv ''ABCD1234''
     (sampleDB (sampleFile\<lparr>File.downloadLimit := Some 2, File.downloadCount := 2\<rparr>)
        (sampleLink\<lparr>SharedLink.downloadLimit := Some 2, SharedLink.downloadCount := 2\<rparr>)))) \<and>
   linksWithinLimit (snd (download_link sampleEnv ''tok'' None
     (sampleDB (sampleFile\<lparr>File.downloadLimit := Some 2, File.downloadCount := 2\<rparr>)
        (sampleLink\<lparr>SharedLink.downloadLimit := Some 2, SharedLink.downloadCount := 2\<rparr>)))) \<and>
   snd (public_download sampleEnv ''ABCD1234'' None
     (sampleDB (sampleFile\<lparr>File.downloadLimit := Some 2, File.downloadCount := 2\<rparr>)
        (sampleLink\<lparr>SharedLink.downloadLimit := Some 2, SharedLink.downloadCount := 2\<rparr>)))
     = sampleDB (sampleFile\<lparr>File.downloadLimit := Some 2, File.downloadCount := 2\<rparr>)
        (sampleLink\<lparr>SharedLink.downloadLimit := Some 2, SharedLink.downloadCount := 2\<rparr>) \<and>
   snd (download_shared sampleEnv ''tok'' None
     (sampleDB (sampleFile\<lparr>File.downloadLimit := Some 2, File.downloadCount := 2\<rparr>)
        (sampleLink\<lparr>SharedLink.downloadLimit := Some 2, SharedLink.downloadCount := 2\<rparr>)))
     = sampleDB (sampleFile\<lparr>File.downloadLimit := Some 2, File.downloadCount := 2\<rparr>)
        (sampleLink\<lparr>SharedLink.downloadLimit := Some 2, SharedLink.downloadCount := 2\<rparr>) \<and>
   filesWithinLimit (snd (download_code sampleEnv ''ABCD1234''
     (sampleDB (sampleFile\<lparr>File.downloadLimit := Some 2, File.downloadCount := 1\<rparr>)
        (sampleLink\<lparr>SharedLink.downloadLimit := Some 2, SharedLink.downloadCount := 1\<rparr>)))) \<and>
   map_option File.downloadCount
     (getFileByShareCode (snd (download_code sampleEnv ''ABCD1234''
        (sampleDB (sampleFile\<lparr>File.downloadLimit := Some 2, File.downloadCount := 1\<rparr>)
           (sampleLink\<lparr>SharedLink.downloadLimit := Some 2, SharedLink.downloadCount := 1\<rparr>))))
        ''ABCD1234'') = Some 2"
proof -
  let ?f = "sampleFile\<lparr>File.downloadLimit := Some 2, File.downloadCount := 2\<rparr>"
  let ?l = "sampleLink\<lparr>SharedLink.downloadLimit := Some 2, SharedLink.downloadCount := 2\<rparr>"
  let ?g = "sampleFile\<lparr>File.downloadLimit := Some 2, File.downloadCount := 1\<rparr>"
  let ?k = "sampleLink\<lparr>SharedLink.downloadLimit := Some 2, SharedLink.downloadCount := 1\<rparr>"
  have inv: "primaryKeys (sampleDB ?f ?l)" "filesWithinLimit (sampleDB ?f ?l)"
      "linksWithinLimit (sampleDB ?f ?l)"
      "primaryKeys (sampleDB ?g ?k)" "filesWithinLimit (sampleDB ?g ?k)"
    by (simp_all add: primaryKeys_def filesWithinLimit_def linksWithinLimit_def sampleDB_def
        countWithinPositiveLimit_def sampleFile_def sampleLink_def)
  have found: "getFileByShareCode (sampleDB ?f ?l) ''ABCD1234'' = Some ?f"
      "File.downloadLimit ?f = Some 2" "2 \<le> File.downloadCount ?f"
      "getSharedLink (sampleDB ?f ?l) ''tok'' = Some ?l"
      "SharedLink.downloadLimit ?l = Some 2" "2 \<le> SharedLink.downloadCount ?l"
    by (simp_all add: getFileByShareCode_def getSharedLink_def sampleDB_def sampleFile_def
        sampleLink_def)
  have after: "map_option File.downloadCount
     (getFileByShareCode (snd (download_code sampleEnv ''ABCD1234'' (sampleDB ?g ?k)))
        ''ABCD1234'') = Some 2"
    by (simp add: download_code_def getFileByShareCode_def sampleDB_def sampleFile_def
        sampleEnv_def expired_def limitExceeded_def Let_def updateFile_def
        createDownloadLog_def setFile_count)
  show ?thesis
    using counter_within_positive_limit [of "sampleDB ?f ?l" sampleEnv "''ABCD1234''" None
        "''tok''" ?f 2 ?l]
      counter_within_positive_limit [of "sampleDB ?g ?k" sampleEnv "''ABCD1234''" None
        "''tok''" ?g 2 ?k]
      inv found after
    by simp
qed

section \<open>Download logs and counters\<close>

lemma logs_other_tables [simp]:
  "downloadLogs (updateFile i fu db) = downloadLogs db"
  "downloadLogs (updateSharedLink j lu db) = downloadLogs db"
  "downloadLogs (createDownloadLog u t ins db) = downloadLogs db @
     [\<lparr> DownloadLog.id' = u,
        DownloadLog.fileId = InsertDownloadLog.fileId ins,
        DownloadLog.sharedLinkId = InsertDownloadLog.sharedLinkId ins,
        DownloadLog.downloaderIp = InsertDownloadLog.downloaderIp ins,
        DownloadLog.downloaderUserAgent = InsertDownloadLog.downloaderUserAgent ins,
        DownloadLog.downloadMethod = InsertDownloadLog.downloadMethod ins,
        DownloadLog.downloadedAt = t \<rparr>]"
  by (simp_all add: updateFile_def updateSharedLink_def createDownloadLog_def)








section \<open>Requests to one link, overlapping and in sequence\<close>

lemma download_link_alone_eq:
  "download_link_alone env token password db
     = (Finished (fst (download_link env token password db)),
        snd (download_link env token password db))"
  by (simp add: download_link_alone_def download_link_def Let_def split: option.split)


lemma sequential_Cons:
  "sequential (env # envs) token password db
     = (fst (download_link env token password db)
          # fst (sequential envs token password (snd (download_link env token password db))),
        snd (sequential envs token password (snd (download_link env token password db))))"
  by (simp add: case_prod_unfold)

lemma passes_count [simp]:
  "passes env password (l\<lparr>SharedLink.downloadCount := n\<rparr>) = passes env password l"
  by (simp add: passes_def)

lemma getFile_id: "getFile db i = Some f \<Longrightarrow> File.id' f = i"
  using find_Some_holds [of "\<lambda>x. File.id' x = i" "files db" f]
  by (simp add: getFile_def)

lemma download_link_granted:
  assumes "passes env password l" and "getSharedLink db token = Some l"
    and notEx: "\<not> limitExceeded (SharedLink.downloadLimit l) (SharedLink.downloadCount l)"
    and "getFile db (SharedLink.fileId l) = Some f"
  shows "fst (download_link env token password db)
           = SendFile (File.storagePath f) (File.originalName f)"
    and "getSharedLink (snd (download_link env token password db)) token
           = Some (l\<lparr>SharedLink.downloadCount := SharedLink.downloadCount l + 1\<rparr>)"
    and "getFile (snd (download_link env token password db)) (SharedLink.fileId l)
           = Some (f\<lparr>File.downloadCount := File.downloadCount f + 1\<rparr>)"
proof -
  have idf: "File.id' f = SharedLink.fileId l"
    using assms(4) by (rule getFile_id)
  have run: "download_link env token password db
      = (SendFile (File.storagePath f) (File.originalName f),
         updateFile (SharedLink.fileId l)
           (noFileUpdate\<lparr>FileUpdate.downloadCount := Some (File.downloadCount f + 1)\<rparr>)
           (updateSharedLink (SharedLink.id' l)
              \<lparr>LinkUpdate.downloadCount = Some (SharedLink.downloadCount l + 1),
               LinkUpdate.isActive = None\<rparr>
              (createDownloadLog (uuid env) (now env)
                 \<lparr> InsertDownloadLog.fileId = File.id' f,
                   InsertDownloadLog.sharedLinkId = Some (SharedLink.id' l),
                   InsertDownloadLog.downloaderIp = ip env,
                   InsertDownloadLog.downloaderUserAgent = orElse (userAgent env) None,
                   InsertDownloadLog.downloadMethod = ''link'' \<rparr> db)))"
    using assms(1,2,4) notEx idf
    by (auto simp: download_link_def passes_def Let_def)
  show "fst (download_link env token password db)
           = SendFile (File.storagePath f) (File.originalName f)"
    by (simp add: run)
  show "getSharedLink (snd (download_link env token password db)) token
           = Some (l\<lparr>SharedLink.downloadCount := SharedLink.downloadCount l + 1\<rparr>)"
    using assms(2) by (simp add: run getSharedLink_updateSharedLink_count)
  show "getFile (snd (download_link env token password db)) (SharedLink.fileId l)
           = Some (f\<lparr>File.downloadCount := File.downloadCount f + 1\<rparr>)"
    using assms(4) by (simp add: run getFile_updateFile_count)
qed

lemma download_link_below_limit:
  assumes "passes env password l" and "getSharedLink db token = Some l"
    and "SharedLink.downloadLimit l = Some lim" and "SharedLink.downloadCount l < lim"
    and "getFile db (SharedLink.fileId l) = Some f"
  shows "fst (download_link env token password db)
           = SendFile (File.storagePath f) (File.originalName f)"
    and "getSharedLink (snd (download_link env token password db)) token
           = Some (l\<lparr>SharedLink.downloadCount := SharedLink.downloadCount l + 1\<rparr>)"
    and "getFile (snd (download_link env token password db)) (SharedLink.fileId l)
           = Some (f\<lparr>File.downloadCount := File.downloadCount f + 1\<rparr>)"
proof -
  have "\<not> limitExceeded (SharedLink.downloadLimit l) (SharedLink.downloadCount l)"
    using assms(3,4) by (simp add: limitExceeded_def)
  then show "fst (download_link env token password db)
           = SendFile (File.storagePath f) (File.originalName f)"
    and "getSharedLink (snd (download_link env token password db)) token
           = Some (l\<lparr>SharedLink.downloadCount := SharedLink.downloadCount l + 1\<rparr>)"
    and "getFile (snd (download_link env token password db)) (SharedLink.fileId l)
           = Some (f\<lparr>File.downloadCount := File.downloadCount f + 1\<rparr>)"
    using download_link_granted [OF assms(1,2) _ assms(5)] by simp_all
qed

lemma download_link_limit_reached:
  assumes "passes env password l" and "getSharedLink db token = Some l"
    and "SharedLink.downloadLimit l = Some lim" and "0 < lim"
    and "lim \<le> SharedLink.downloadCount l"
  shows "download_link env token password db
           = (ErrorJson 429 ''Download limit exceeded'', db)"
  using assms by (auto simp: download_link_def passes_def at_positive_limit_exceeded)

lemma sequential_from_count:
  assumes "\<forall>env\<in>set envs. passes env password l"
    and "getSharedLink db token = Some l"
    and "SharedLink.downloadLimit l = Some (int L)" and "0 < L"
    and "SharedLink.downloadCount l = int c" and "c \<le> L"
    and "getFile db (SharedLink.fileId l) = Some f"
  shows "length (filter served (fst (sequential envs token password db)))
           = min (length envs) (L - c) \<and>
         length (filter limitReached (fst (sequential envs token password db)))
           = length envs - min (length envs) (L - c) \<and>
         map_option SharedLink.downloadCount
             (getSharedLink (snd (sequential envs token password db)) token)
           = Some (int (c + min (length envs) (L - c)))"
  using assms
proof (induction envs arbitrary: db l c f)
  case Nil
  then show ?case by simp
next
  case (Cons env envs)
  have p: "passes env password l" and rest: "\<forall>e\<in>set envs. passes e password l"
    using Cons.prems(1) by simp_all
  show ?case
  proof (cases "c < L")
    case True
    let ?db = "snd (download_link env token password db)"
    let ?l = "l\<lparr>SharedLink.downloadCount := SharedLink.downloadCount l + 1\<rparr>"
    let ?f = "f\<lparr>File.downloadCount := File.downloadCount f + 1\<rparr>"
    have below: "SharedLink.downloadCount l < int L"
      using True Cons.prems(5) by simp
    note step = download_link_below_limit [OF p Cons.prems(2) Cons.prems(3) below Cons.prems(7)]
    have ih: "length (filter served (fst (sequential envs token password ?db)))
           = min (length envs) (L - Suc c) \<and>
         length (filter limitReached (fst (sequential envs token password ?db)))
           = length envs - min (length envs) (L - Suc c) \<and>
         map_option SharedLink.downloadCount
             (getSharedLink (snd (sequential envs token password ?db)) token)
           = Some (int (Suc c + min (length envs) (L - Suc c)))"
    proof (rule Cons.IH [of ?l ?db "Suc c" ?f])
      show "\<forall>e\<in>set envs. passes e password ?l" using rest by simp
      show "getSharedLink ?db token = Some ?l" by (rule step(2))
      show "SharedLink.downloadLimit ?l = Some (int L)" using Cons.prems(3) by simp
      show "0 < L" by (rule Cons.prems(4))
      show "SharedLink.downloadCount ?l = int (Suc c)" using Cons.prems(5) by simp
      show "Suc c \<le> L" using True by simp
      show "getFile ?db (SharedLink.fileId ?l) = Some ?f" using step(3) by simp
    qed
    have first: "served (fst (download_link env token password db))"
      "\<not> limitReached (fst (download_link env token password db))"
      by (simp_all add: step(1) limitReached_def)
    have a1: "Suc (min n (L - Suc c)) = min (Suc n) (L - c)" for n
      using True by arith
    have a2: "n - min n (L - Suc c) = Suc n - min (Suc n) (L - c)" for n
      using True by arith
    have a3: "Suc c + min n (L - Suc c) = c + min (Suc n) (L - c)" for n
      using True by arith
    show ?thesis
      unfolding sequential_Cons fst_conv snd_conv
      using ih [unfolded a3] first a1 [of "length envs"] a2 [of "length envs"]
      by (simp del: sequential.simps)
  next
    case False
    then have cL: "c = L" using Cons.prems(6) by simp
    have atLimit: "int L \<le> SharedLink.downloadCount l"
      using cL Cons.prems(5) by simp
    have posL: "0 < int L" using Cons.prems(4) by simp
    have step: "download_link env token password db
                  = (ErrorJson 429 ''Download limit exceeded'', db)"
      by (rule download_link_limit_reached [OF p Cons.prems(2) Cons.prems(3) posL atLimit])
    have ih: "length (filter served (fst (sequential envs token password db)))
           = min (length envs) (L - c) \<and>
         length (filter limitReached (fst (sequential envs token password db)))
           = length envs - min (length envs) (L - c) \<and>
         map_option SharedLink.downloadCount
             (getSharedLink (snd (sequential envs token password db)) token)
           = Some (int (c + min (length envs) (L - c)))"
      by (rule Cons.IH [OF rest Cons.prems(2) Cons.prems(3) Cons.prems(4) Cons.prems(5)
            Cons.prems(6) Cons.prems(7)])
    have denied: "limitReached (ErrorJson 429 ''Download limit exceeded'')"
      by (simp add: limitReached_def)
    show ?thesis
      unfolding sequential_Cons step fst_conv snd_conv
      using ih cL denied by (simp del: sequential.simps)
  qed
qed

text \<open>
  Claim C2, as stated, fails for requests that overlap. Two requests for a link with
  \<open>downloadLimit = 1\<close> and \<open>downloadCount = 0\<close> are advanced in turn, each to its next
  \<open>await\<close>. Both read the link while its counter is 0, both pass the limit check, both
  write the counter 1 and both are served: two requests are allowed where the claim says
  \<open>min 2 1 = 1\<close>, none is answered \<open>Download limit exceeded\<close>, and two logs are written
  while the counter reads 1. The counter is written from the row read earlier, not
  re-checked at the write.
\<close>

theorem overlapping_requests_exceed_limit:
  "allowed (fst twoOverlapping) = 2 \<and>
   allowed (fst twoOverlapping) \<noteq> min 2 1 \<and>
   map_option SharedLink.downloadCount (getSharedLink (snd twoOverlapping) ''tok'') = Some 1 \<and>
   length (downloadLogs (snd twoOverlapping)) = 2"
  by (simp add: twoOverlapping_def sampleDB_def sampleLink_def sampleFile_def sampleEnv_def
      getSharedLink_def getFile_def truthy_def expired_def limitExceeded_def
      updateSharedLink_def updateFile_def createDownloadLog_def setLink_count setFile_count)

text \<open>
  Claim C2, amended to requests handled one after the other. For a link with a positive
  download limit \<open>L\<close> and counter 0 whose file exists, \<open>N\<close> requests to
  \<open>POST /api/download/link/:token\<close> that pass the other checks, each finished before the
  next starts, give exactly \<open>min N L\<close> responses that serve the file and \<open>N - min N L\<close>
  responses \<open>Download limit exceeded\<close>, and leave the link's counter at \<open>min N L\<close>.
\<close>

theorem sequential_requests_respect_limit:
  assumes "\<forall>env\<in>set envs. passes env password l"
    and "getSharedLink db token = Some l"
    and "SharedLink.downloadLimit l = Some (int L)" and "0 < L"
    and "SharedLink.downloadCount l = 0"
    and "getFile db (SharedLink.fileId l) = Some f"
  shows "length (filter served (fst (sequential envs token password db)))
           = min (length envs) L \<and>
         length (filter limitReached (fst (sequential envs token password db)))
           = length envs - min (length envs) L \<and>
         map_option SharedLink.downloadCount
             (getSharedLink (snd (sequential envs token password db)) token)
           = Some (int (min (length envs) L))"
  using sequential_from_count [of envs password l db token L 0 f] assms by simp


theorem sequential_requests_respect_limit_witness:
  "passes sampleEnv None (sampleLink\<lparr>SharedLink.downloadLimit := Some 2\<rparr>) \<and>
   passes (sampleEnv\<lparr>uuid := ''log2''\<rparr>) None
     (sampleLink\<lparr>SharedLink.downloadLimit := Some 2\<rparr>) \<and>
   passes (sampleEnv\<lparr>uuid := ''log3''\<rparr>) None
     (sampleLink\<lparr>SharedLink.downloadLimit := Some 2\<rparr>) \<and>
   getSharedLink (sampleDB sampleFile (sampleLink\<lparr>SharedLink.downloadLimit := Some 2\<rparr>))
     ''tok'' = Some (sampleLink\<lparr>SharedLink.downloadLimit := Some 2\<rparr>) \<and>
   length (filter served (fst (sequential
     [sampleEnv, sampleEnv\<lparr>uuid := ''log2''\<rparr>, sampleEnv\<lparr>uuid := ''log3''\<rparr>] ''tok'' None
     (sampleDB sampleFile (sampleLink\<lparr>SharedLink.downloadLimit := Some 2\<rparr>))))) = 2 \<and>
   length (filter limitReached (fst (sequential
     [sampleEnv, sampleEnv\<lparr>uuid := ''log2''\<rparr>, sampleEnv\<lparr>uuid := ''log3''\<rparr>] ''tok'' None
     (sampleDB sampleFile (sampleLink\<lparr>SharedLink.downloadLimit := Some 2\<rparr>))))) = 1 \<and>
   map_option SharedLink.downloadCount
     (getSharedLink (snd (sequential
        [sampleEnv, sampleEnv\<lparr>uuid := ''log2''\<rparr>, sampleEnv\<lparr>uuid := ''log3''\<rparr>] ''tok'' None
        (sampleDB sampleFile (sampleLink\<lparr>SharedLink.downloadLimit := Some 2\<rparr>))))
        ''tok'') = Some 2"
proof -
  let ?l = "sampleLink\<lparr>SharedLink.downloadLimit := Some 2\<rparr>"
  let ?envs = "[sampleEnv, sampleEnv\<lparr>uuid := ''log2''\<rparr>, sampleEnv\<lparr>uuid := ''log3''\<rparr>]"
  have p: "passes sampleEnv None ?l" "passes (sampleEnv\<lparr>uuid := ''log2''\<rparr>) None ?l"
      "passes (sampleEnv\<lparr>uuid := ''log3''\<rparr>) None ?l"
    by (simp_all add: passes_def sampleEnv_def sampleLink_def expired_def truthy_def)
  then have all: "\<forall>env\<in>set ?envs. passes env None ?l"
    by simp
  have l: "getSharedLink (sampleDB sampleFile ?l) ''tok'' = Some ?l"
      "SharedLink.downloadLimit ?l = Some (int 2)" "SharedLink.downloadCount ?l = 0"
    by (simp_all add: getSharedLink_def sampleDB_def sampleLink_def)
  have f: "getFile (sampleDB sampleFile ?l) (SharedLink.fileId ?l) = Some sampleFile"
    by (simp add: getFile_def sampleDB_def sampleLink_def sampleFile_def)
  have pos: "0 < (2::nat)" by simp
  show ?thesis
    using sequential_requests_respect_limit [OF all l(1) l(2) pos l(3) f] p l(1)
    by (simp del: sequential.simps)
qed


section \<open>A download limit of zero\<close>

lemma zero_limit_not_exceeded: "\<not> limitExceeded (Some 0) c"
  by (simp add: limitExceeded_def)

lemma download_code_zero_limit:
  "fault env = None \<and> getFileByShareCode db code = Some f \<and>
   File.downloadLimit f = Some 0 \<and> \<not> expired (now env) (File.expiresAt f)
   \<longrightarrow> fst (download_code env code db)
         = SendFile (File.storagePath f) (File.originalName f) \<and>
       getFileByShareCode (snd (download_code env code db)) code
         = Some (f\<lparr>File.downloadCount := File.downloadCount f + 1\<rparr>)"
  by (auto simp: download_code_def zero_limit_not_exceeded Let_def
      getFileByShareCode_updateFile_count)

lemma download_link_zero_limit:
  "fault env = None \<and> getSharedLink db token = Some l \<and> SharedLink.isActive l \<and>
   SharedLink.downloadLimit l = Some 0 \<and> \<not> expired (now env) (SharedLink.expiresAt l) \<and>
   (truthy (SharedLink.passwordHash l)
      \<longrightarrow> validatePassword env password (the (SharedLink.passwordHash l))) \<and>
   getFile db (SharedLink.fileId l) = Some g
   \<longrightarrow> fst (download_link env token password db)
         = SendFile (File.storagePath g) (File.originalName g) \<and>
       getSharedLink (snd (download_link env token password db)) token
         = Some (l\<lparr>SharedLink.downloadCount := SharedLink.downloadCount l + 1\<rparr>)"
  by (auto simp: download_link_def zero_limit_not_exceeded Let_def
      getSharedLink_updateSharedLink_count)

lemma download_shared_zero_limit:
  "fault env = None \<and> getSharedLink db token = Some l \<and> SharedLink.isActive l \<and>
   SharedLink.downloadLimit l = Some 0 \<and> \<not> expired (now env) (SharedLink.expiresAt l) \<and>
   (truthy (SharedLink.passwordHash l)
      \<longrightarrow> truthy password \<and>
          validateFilePassword env password (the (SharedLink.passwordHash l))) \<and>
   getFile db (SharedLink.fileId l) = Some g \<and> existsSync env (File.storagePath g)
   \<longrightarrow> fst (download_shared env token password db)
         = (if setHeaderThrows env g then ServerError
            else SendFile (File.storagePath g) (File.originalName g)) \<and>
       getSharedLink (snd (download_shared env token password db)) token
         = Some (l\<lparr>SharedLink.downloadCount := SharedLink.downloadCount l + 1\<rparr>)"
  by (auto simp: download_shared_def zero_limit_not_exceeded Let_def
      getSharedLink_updateSharedLink_count)

lemma sequential_zero_limit:
  assumes "\<forall>env\<in>set envs. passes env password l"
    and "getSharedLink db token = Some l" and "SharedLink.downloadLimit l = Some 0"
    and "getFile db (SharedLink.fileId l) = Some g"
  shows "length (filter served (fst (sequential envs token password db))) = length envs \<and>
         map_option SharedLink.downloadCount
             (getSharedLink (snd (sequential envs token password db)) token)
           = Some (SharedLink.downloadCount l + int (length envs))"
  using assms
proof (induction envs arbitrary: db l g)
  case Nil
  then show ?case by simp
next
  case (Cons env envs)
  let ?db = "snd (download_link env token password db)"
  let ?l = "l\<lparr>SharedLink.downloadCount := SharedLink.downloadCount l + 1\<rparr>"
  let ?g = "g\<lparr>File.downloadCount := File.downloadCount g + 1\<rparr>"
  have p: "passes env password l" and rest: "\<forall>e\<in>set envs. passes e password ?l"
    using Cons.prems(1) by simp_all
  have notEx: "\<not> limitExceeded (SharedLink.downloadLimit l) (SharedLink.downloadCount l)"
    using Cons.prems(3) by (simp add: zero_limit_not_exceeded)
  note step = download_link_granted [OF p Cons.prems(2) notEx Cons.prems(4)]
  have ih: "length (filter served (fst (sequential envs token password ?db))) = length envs \<and>
         map_option SharedLink.downloadCount
             (getSharedLink (snd (sequential envs token password ?db)) token)
           = Some (SharedLink.downloadCount ?l + int (length envs))"
  proof (rule Cons.IH [of ?l ?db ?g])
    show "\<forall>e\<in>set envs. passes e password ?l" by (rule rest)
    show "getSharedLink ?db token = Some ?l" by (rule step(2))
    show "SharedLink.downloadLimit ?l = Some 0" using Cons.prems(3) by simp
    show "getFile ?db (SharedLink.fileId ?l) = Some ?g" using step(3) by simp
  qed
  have first: "served (fst (download_link env token password db))"
    by (simp add: step(1))
  show ?case
    unfolding sequential_Cons fst_conv snd_conv
    using ih first by (auto simp del: sequential.simps simp: add.assoc)
qed

text \<open>
  Claim C9. A download limit of 0 never denies: the guard
  \<open>x.downloadLimit && x.downloadCount >= x.downloadLimit\<close> is false for every counter
  value when the limit is 0. So, whatever the counter already reads, each of the three
  download routes with that guard serves a target whose limit is 0 (when its other checks
  pass and no storage call fails) and stores the counter plus one;
  \<open>POST /api/download/shared\<close> stores it as well when \<open>res.setHeader\<close> then throws and
  the answer is the 500 of the \<open>catch\<close> instead of the file. There is no bound:
  any number of requests to \<open>POST /api/download/link/:token\<close>, one after the other, are
  all served, and the counter ends that number higher.
\<close>

theorem zero_limit_is_no_limit:
  "\<not> limitExceeded (Some 0) c \<and>
   (fault env = None \<and> getFileByShareCode db code = Some f \<and>
    File.downloadLimit f = Some 0 \<and> \<not> expired (now env) (File.expiresAt f)
    \<longrightarrow> fst (download_code env code db)
          = SendFile (File.storagePath f) (File.originalName f) \<and>
        getFileByShareCode (snd (download_code env code db)) code
          = Some (f\<lparr>File.downloadCount := File.downloadCount f + 1\<rparr>)) \<and>
   (fault env = None \<and> getSharedLink db token = Some l \<and> SharedLink.isActive l \<and>
    SharedLink.downloadLimit l = Some 0 \<and> \<not> expired (now env) (SharedLink.expiresAt l) \<and>
    (truthy (SharedLink.passwordHash l)
       \<longrightarrow> validatePassword env password (the (SharedLink.passwordHash l))) \<and>
    getFile db (SharedLink.fileId l) = Some g
    \<longrightarrow> fst (download_link env token password db)
          = SendFile (File.storagePath g) (File.originalName g) \<and>
        getSharedLink (snd (download_link env token password db)) token
          = Some (l\<lparr>SharedLink.downloadCount := SharedLink.downloadCount l + 1\<rparr>)) \<and>
   (fault env = None \<and> getSharedLink db token = Some l \<and> SharedLink.isActive l \<and>
    SharedLink.downloadLimit l = Some 0 \<and> \<not> expired (now env) (SharedLink.expiresAt l) \<and>
    (truthy (SharedLink.passwordHash l)
       \<longrightarrow> truthy password \<and>
           validateFilePassword env password (the (SharedLink.passwordHash l))) \<and>
    getFile db (SharedLink.fileId l) = Some g \<and> existsSync env (File.storagePath g)
    \<longrightarrow> fst (download_shared env token password db)
          = (if setHeaderThrows env g then ServerError
             else SendFile (File.storagePath g) (File.originalName g)) \<and>
        getSharedLink (snd (download_shared env token password db)) token
          = Some (l\<lparr>SharedLink.downloadCount := SharedLink.downloadCount l + 1\<rparr>)) \<and>
   ((\<forall>e\<in>set envs. passes e password l) \<and> getSharedLink db token = Some l \<and>
    SharedLink.downloadLimit l = Some 0 \<and> getFile db (SharedLink.fileId l) = Some g
    \<longrightarrow> length (filter served (fst (sequential envs token password db))) = length envs \<and>
        map_option SharedLink.downloadCount
            (getSharedLink (snd (sequential envs token password db)) token)
          = Some (SharedLink.downloadCount l + int (length envs)))"
proof -
  have unbounded:
    "(\<forall>e\<in>set envs. passes e password l) \<and> getSharedLink db token = Some l \<and>
     SharedLink.downloadLimit l = Some 0 \<and> getFile db (SharedLink.fileId l) = Some g
     \<longrightarrow> length (filter served (fst (sequential envs token password db))) = length envs \<and>
         map_option SharedLink.downloadCount
             (getSharedLink (snd (sequential envs token password db)) token)
           = Some (SharedLink.downloadCount l + int (length envs))"
    using sequential_zero_limit [of envs password l db token g] by blast
  show ?thesis
    by (rule conjI [OF zero_limit_not_exceeded
          conjI [OF download_code_zero_limit
            conjI [OF download_link_zero_limit
              conjI [OF download_shared_zero_limit unbounded]]]])
qed

theorem zero_limit_is_no_limit_witness:
  "fst (download_code sampleEnv ''ABCD1234''
          (sampleDB (sampleFile\<lparr>File.downloadLimit := Some 0, File.downloadCount := 7\<rparr>)
             (sampleLink\<lparr>SharedLink.downloadLimit := Some 0,
                          SharedLink.downloadCount := 7\<rparr>)))
     = SendFile ''uploads/f1'' ''report.pdf'' \<and>
   map_option File.downloadCount
     (getFileByShareCode
        (snd (download_code sampleEnv ''ABCD1234''
          (sampleDB (sampleFile\<lparr>File.downloadLimit := Some 0, File.downloadCount := 7\<rparr>)
             (sampleLink\<lparr>SharedLink.downloadLimit := Some 0,
                          SharedLink.downloadCount := 7\<rparr>)))) ''ABCD1234'') = Some 8 \<and>
   fst (download_link sampleEnv ''tok'' None
          (sampleDB (sampleFile\<lparr>File.downloadLimit := Some 0, File.downloadCount := 7\<rparr>)
             (sampleLink\<lparr>SharedLink.downloadLimit := Some 0,
                          SharedLink.downloadCount := 7\<rparr>)))
     = SendFile ''uploads/f1'' ''report.pdf'' \<and>
   map_option SharedLink.downloadCount
     (getSharedLink
        (snd (download_link sampleEnv ''tok'' None
          (sampleDB (sampleFile\<lparr>File.downloadLimit := Some 0, File.downloadCount := 7\<rparr>)
             (sampleLink\<lparr>SharedLink.downloadLimit := Some 0,
                          SharedLink.downloadCount := 7\<rparr>)))) ''tok'') = Some 8 \<and>
   fst (download_shared sampleEnv ''tok'' None
          (sampleDB (sampleFile\<lparr>File.downloadLimit := Some 0, File.downloadCount := 7\<rparr>)
             (sampleLink\<lparr>SharedLink.downloadLimit := Some 0,
                          SharedLink.downloadCount := 7\<rparr>)))
     = SendFile ''uploads/f1'' ''report.pdf'' \<and>
   map_option SharedLink.downloadCount
     (getSharedLink
        (snd (download_shared sampleEnv ''tok'' None
          (sampleDB (sampleFile\<lparr>File.downloadLimit := Some 0, File.downloadCount := 7\<rparr>)
             (sampleLink\<lparr>SharedLink.downloadLimit := Some 0,
                          SharedLink.downloadCount := 7\<rparr>)))) ''tok'') = Some 8 \<and>
   length (filter served (fst (sequential
       [sampleEnv, sampleEnv\<lparr>uuid := ''log2''\<rparr>, sampleEnv\<lparr>uuid := ''log3''\<rparr>] ''tok'' None
       (sampleDB (sampleFile\<lparr>File.downloadLimit := Some 0, File.downloadCount := 7\<rparr>)
          (sampleLink\<lparr>SharedLink.downloadLimit := Some 0,
                       SharedLink.downloadCount := 7\<rparr>))))) = 3 \<and>
   map_option SharedLink.downloadCount
     (getSharedLink (snd (sequential
       [sampleEnv, sampleEnv\<lparr>uuid := ''log2''\<rparr>, sampleEnv\<lparr>uuid := ''log3''\<rparr>] ''tok'' None
       (sampleDB (sampleFile\<lparr>File.downloadLimit := Some 0, File.downloadCount := 7\<rparr>)
          (sampleLink\<lparr>SharedLink.downloadLimit := Some 0,
                       SharedLink.downloadCount := 7\<rparr>)))) ''tok'') = Some 10"
proof -
  let ?f = "sampleFile\<lparr>File.downloadLimit := Some 0, File.downloadCount := 7\<rparr>"
  let ?l = "sampleLink\<lparr>SharedLink.downloadLimit := Some 0, SharedLink.downloadCount := 7\<rparr>"
  have env: "fault sampleEnv = None" "existsSync sampleEnv (File.storagePath ?f)"
      "\<not> setHeaderThrows sampleEnv ?f"
    by (simp_all add: sampleEnv_def setHeaderThrows_def contentDisposition_def
        sampleInvalidHeader_def sampleFile_def)
  have f: "getFileByShareCode (sampleDB ?f ?l) ''ABCD1234'' = Some ?f"
      "getFile (sampleDB ?f ?l) (SharedLink.fileId ?l) = Some ?f"
      "File.downloadLimit ?f = Some 0" "\<not> expired (now sampleEnv) (File.expiresAt ?f)"
    by (simp_all add: getFileByShareCode_def getFile_def sampleDB_def sampleFile_def
        sampleLink_def expired_def)
  have l: "getSharedLink (sampleDB ?f ?l) ''tok'' = Some ?l" "SharedLink.isActive ?l"
      "SharedLink.downloadLimit ?l = Some 0"
      "\<not> expired (now sampleEnv) (SharedLink.expiresAt ?l)"
      "\<not> truthy (SharedLink.passwordHash ?l)"
    by (simp_all add: getSharedLink_def sampleDB_def sampleLink_def expired_def truthy_def)
  let ?envs = "[sampleEnv, sampleEnv\<lparr>uuid := ''log2''\<rparr>, sampleEnv\<lparr>uuid := ''log3''\<rparr>]"
  have p: "\<forall>e\<in>set ?envs. passes e None ?l"
    by (simp add: passes_def sampleEnv_def sampleLink_def expired_def truthy_def)
  have c: "SharedLink.downloadCount ?l = 7"
    by simp
  show ?thesis
    using zero_limit_is_no_limit [of 7 sampleEnv "sampleDB ?f ?l" "''ABCD1234''" ?f
        "''tok''" ?l None ?f ?envs] env f l p c
    by (simp add: sampleFile_def del: sequential.simps)
qed


section \<open>The share-code index of MemStorage\<close>

lemma Mem_indexSound_new: "Mem_indexSound Mem_new"
  by (simp add: Mem_indexSound_def Mem_new_def)

lemma Mem_indexSound_create:
  assumes "Mem_indexSound s" and "map_of (MemStorage.files s) u = None"
  shows "Mem_indexSound (snd (Mem_createFile u t insertFile s))"
  using assms
  apply (simp add: Mem_indexSound_def Mem_createFile_def Let_def AList.update_conv' truthy_def split: option.splits)
  apply (auto; (metis option.distinct(1) option.inject)?)
  done

lemma Mem_indexSound_update:
  assumes "Mem_indexSound s"
  shows "Mem_indexSound (snd (Mem_updateFile i t fileUpdate s))"
proof (cases "map_of (MemStorage.files s) i")
  case None
  then show ?thesis using assms by (simp add: Mem_updateFile_def)
next
  case (Some existing)
  let ?upd = "(Mem_spread fileUpdate existing)\<lparr>MemFile.updatedAt := t\<rparr>"
  have id_upd: "MemFile.id' ?upd = i"
    using assms Some by (simp add: Mem_spread_def Mem_indexSound_def)
  show ?thesis
    using assms Some id_upd
    apply (simp add: Mem_indexSound_def Mem_updateFile_def Let_def AList.update_conv' AList.delete_conv' truthy_def split: option.splits)
    apply (auto simp: Mem_spread_def split: option.splits; (metis option.distinct(1) option.inject)?)
    done
qed

lemma fold_links_keeps:
  "MemStorage.files (fold (\<lambda>link st. st
      \<lparr> MemStorage.sharedLinks := AList.delete (SharedLink.id' link) (MemStorage.sharedLinks st),
        shareTokenToLinkId := AList.delete (SharedLink.shareToken link) (shareTokenToLinkId st) \<rparr>)
      links s) = MemStorage.files s \<and>
   shareCodeToFileId (fold (\<lambda>link st. st
      \<lparr> MemStorage.sharedLinks := AList.delete (SharedLink.id' link) (MemStorage.sharedLinks st),
        shareTokenToLinkId := AList.delete (SharedLink.shareToken link) (shareTokenToLinkId st) \<rparr>)
      links s) = shareCodeToFileId s"
  by (induction links arbitrary: s) simp_all

lemma fold_logs_keeps:
  "MemStorage.files (fold (\<lambda>log st. st
      \<lparr> MemStorage.downloadLogs := AList.delete (DownloadLog.id' log) (MemStorage.downloadLogs st) \<rparr>)
      logs s) = MemStorage.files s \<and>
   shareCodeToFileId (fold (\<lambda>log st. st
      \<lparr> MemStorage.downloadLogs := AList.delete (DownloadLog.id' log) (MemStorage.downloadLogs st) \<rparr>)
      logs s) = shareCodeToFileId s"
  by (induction logs arbitrary: s) simp_all

lemma Mem_deleteFile_tables:
  assumes "map_of (MemStorage.files s) i = Some file"
  shows "map_of (MemStorage.files (snd (Mem_deleteFile i s))) = (map_of (MemStorage.files s))(i := None)"
    and "map_of (shareCodeToFileId (snd (Mem_deleteFile i s)))
           = (if truthy (MemFile.shareCode file)
              then (map_of (shareCodeToFileId s))(the (MemFile.shareCode file) := None)
              else map_of (shareCodeToFileId s))"
  using assms
  by (simp_all add: Mem_deleteFile_def Let_def fold_links_keeps fold_logs_keeps AList.delete_conv')

lemma Mem_indexSound_delete:
  assumes "Mem_indexSound s"
  shows "Mem_indexSound (snd (Mem_deleteFile i s))"
proof (cases "map_of (MemStorage.files s) i")
  case None
  then show ?thesis using assms by (simp add: Mem_deleteFile_def)
next
  case (Some stored)
  show ?thesis
    using assms Some
    apply (simp add: Mem_indexSound_def Mem_deleteFile_tables [OF Some] truthy_def split: option.splits)
    apply (auto; (metis option.distinct(1) option.inject)?)
    done
qed

lemma Mem_indexSound_run:
  assumes "Mem_indexSound s" and "freshIds ops s"
  shows "Mem_indexSound (Mem_run ops s)"
  using assms
proof (induction ops arbitrary: s)
  case Nil
  then show ?case by simp
next
  case (Cons op ops)
  then show ?case
    by (cases op) (simp_all add: Mem_indexSound_create Mem_indexSound_update Mem_indexSound_delete)
qed

lemma lookup_sound:
  assumes "Mem_indexSound s" and "Mem_getFileByShareCode s c = Some f"
  shows "Mem_getFile s (MemFile.id' f) = Some f \<and> MemFile.shareCode f = Some c"
proof -
  obtain i where idx: "map_of (shareCodeToFileId s) c = Some i"
    and stored: "map_of (MemStorage.files s) i = Some f"
    using assms(2)
    by (auto simp: Mem_getFileByShareCode_def split: option.splits if_splits)
  have "MemFile.id' f = i"
    using assms(1) stored by (simp add: Mem_indexSound_def)
  moreover have "MemFile.shareCode f = Some c"
    using assms(1) idx stored by (fastforce simp: Mem_indexSound_def)
  ultimately show ?thesis
    using stored by (simp add: Mem_getFile_def)
qed

lemma lookup_after_delete:
  assumes "Mem_indexSound s" and "Mem_getFile s i = Some g" and "MemFile.shareCode g = Some c"
  shows "Mem_getFileByShareCode (snd (Mem_deleteFile i s)) c = None"
proof -
  have files: "map_of (MemStorage.files s) i = Some g"
    using assms(2) by (simp add: Mem_getFile_def)
  show ?thesis
  proof (cases "c = []")
    case True
    then have "map_of (shareCodeToFileId s) c = None"
      using assms(1) by (cases "map_of (shareCodeToFileId s) c") (auto simp: Mem_indexSound_def)
    then show ?thesis
      using assms(3) True
      by (simp add: Mem_getFileByShareCode_def Mem_deleteFile_tables [OF files] truthy_def)
  next
    case False
    then show ?thesis
      using assms(3)
      by (simp add: Mem_getFileByShareCode_def Mem_deleteFile_tables [OF files] truthy_def)
  qed
qed

text \<open>
  Claim C10. Start from an empty \<open>MemStorage\<close> and apply any sequence of \<open>createFile\<close>,
  \<open>updateFile\<close> and \<open>deleteFile\<close> in which every \<open>crypto.randomUUID()\<close> is an
  identifier not in use. In the store that results, a file that \<open>getFileByShareCode c\<close>
  returns is stored (under its own \<open>id\<close>) and has \<open>shareCode = c\<close>; and once a stored
  file is deleted, \<open>getFileByShareCode\<close> of the share code it had returns nothing.
\<close>

theorem share_code_index_sound:
  assumes "freshIds ops Mem_new"
  shows "(Mem_getFileByShareCode (Mem_run ops Mem_new) c = Some f \<longrightarrow>
            Mem_getFile (Mem_run ops Mem_new) (MemFile.id' f) = Some f \<and>
            MemFile.shareCode f = Some c) \<and>
         (Mem_getFile (Mem_run ops Mem_new) i = Some g \<and> MemFile.shareCode g = Some c \<longrightarrow>
            Mem_getFileByShareCode (Mem_run (ops @ [DeleteFile i]) Mem_new) c = None)"
proof -
  have sound: "Mem_indexSound (Mem_run ops Mem_new)"
    using Mem_indexSound_new assms by (rule Mem_indexSound_run)
  have run_snoc: "Mem_run (ops @ [DeleteFile i]) s = snd (Mem_deleteFile i (Mem_run ops s))" for s
    by (induction ops arbitrary: s) simp_all
  show ?thesis
    using lookup_sound [OF sound] lookup_after_delete [OF sound]
    by (simp add: run_snoc)
qed

lemma sample_run:
  "Mem_run sampleOps Mem_new =
     \<lparr> MemStorage.files = [(''id2'', sampleStored)], MemStorage.sharedLinks = [],
       MemStorage.downloadLogs = [], shareCodeToFileId = [(''CCCC3333'', ''id2'')],
       shareTokenToLinkId = [] \<rparr>"
  by (simp add: sampleOps_def Mem_new_def Mem_createFile_def Mem_updateFile_def
      Mem_deleteFile_def Mem_spread_def sampleInsert_def sampleStored_def noFileUpdate_def
      truthy_def Let_def)

theorem share_code_index_sound_witness:
  "freshIds sampleOps Mem_new \<and>
   Mem_getFileByShareCode (Mem_run sampleOps Mem_new) ''CCCC3333'' = Some sampleStored \<and>
   Mem_getFile (Mem_run sampleOps Mem_new) ''id2'' = Some sampleStored \<and>
   MemFile.shareCode sampleStored = Some ''CCCC3333'' \<and>
   Mem_getFileByShareCode (Mem_run (sampleOps @ [DeleteFile ''id2'']) Mem_new) ''CCCC3333''
     = None"
proof -
  have fresh: "freshIds sampleOps Mem_new"
    by (simp add: sampleOps_def Mem_new_def Mem_createFile_def sampleInsert_def truthy_def
        Let_def)
  have found: "Mem_getFileByShareCode (Mem_run sampleOps Mem_new) ''CCCC3333''
                 = Some sampleStored"
    by (simp add: sample_run Mem_getFileByShareCode_def)
  have stored: "Mem_getFile (Mem_run sampleOps Mem_new) ''id2'' = Some sampleStored"
      "MemFile.shareCode sampleStored = Some ''CCCC3333''" "MemFile.id' sampleStored = ''id2''"
    by (simp_all add: sample_run Mem_getFile_def sampleStored_def)
  show ?thesis
    using share_code_index_sound [OF fresh, of "''CCCC3333''" sampleStored "''id2''" sampleStored]
      fresh found stored
    by simp
qed


section \<open>Passwords in MemStorage\<close>

lemma alphabet_distinct: "distinct base64Alphabet"
  by (simp add: base64Alphabet_def)

lemma alphabet_length: "length base64Alphabet = 64"
  by (simp add: base64Alphabet_def)

lemma digit_inj: "i < 64 \<Longrightarrow> j < 64 \<Longrightarrow> base64Digit i = base64Digit j \<Longrightarrow> i = j"
  using alphabet_distinct alphabet_length
  by (simp add: base64Digit_def nth_eq_iff_index_eq)

lemma digit_not_pad: "i < 64 \<Longrightarrow> base64Digit i \<noteq> CHR ''=''"
proof -
  assume "i < 64"
  then have "base64Digit i \<in> set base64Alphabet"
    by (simp add: base64Digit_def alphabet_length)
  moreover have "CHR ''='' \<notin> set base64Alphabet"
    by (simp add: base64Alphabet_def)
  ultimately show ?thesis by auto
qed


lemma digit_eq_iff:
  "i < 64 \<Longrightarrow> j < 64 \<Longrightarrow> (base64Digit i = base64Digit j) = (i = j)"
  using digit_inj by blast

lemma hi16: fixes x y :: nat assumes "y < 16" shows "(x * 16 + y) div 16 = x" and "(x * 16 + y) mod 16 = y"
  using assms by simp_all

lemma hi4: fixes x y :: nat assumes "y < 4" shows "(x * 4 + y) div 4 = x" and "(x * 4 + y) mod 4 = y"
  using assms by simp_all

lemma b16: fixes b :: nat assumes "b < 256" shows "b div 16 < 16"
  using assms by simp

lemma c64: fixes c :: nat assumes "c < 256" shows "c div 64 < 4"
  using assms by simp

lemma one_byte_inj:
  fixes a a' :: nat
  assumes "a div 4 = a' div 4" and "(a mod 4) * 16 = (a' mod 4) * 16"
  shows "a = a'"
proof -
  have "a mod 4 = a' mod 4" using assms(2) by simp
  then show ?thesis using assms(1) by (metis div_mult_mod_eq)
qed

lemma two_bytes_inj:
  fixes a a' b b' :: nat
  assumes "b < 256" and "b' < 256"
    and "a div 4 = a' div 4"
    and "(a mod 4) * 16 + b div 16 = (a' mod 4) * 16 + b' div 16"
    and "(b mod 16) * 4 = (b' mod 16) * 4"
  shows "a = a' \<and> b = b'"
proof -
  have "a mod 4 = a' mod 4"
    using hi16(1) [OF b16 [OF assms(1)], of "a mod 4"] hi16(1) [OF b16 [OF assms(2)], of "a' mod 4"]
      assms(4) by simp
  then have a: "a = a'" using assms(3) by (metis div_mult_mod_eq)
  have "b div 16 = b' div 16"
    using hi16(2) [OF b16 [OF assms(1)], of "a mod 4"] hi16(2) [OF b16 [OF assms(2)], of "a' mod 4"]
      assms(4) by simp
  moreover have "b mod 16 = b' mod 16" using assms(5) by simp
  ultimately have "b = b'" by (metis div_mult_mod_eq)
  with a show ?thesis by simp
qed

lemma three_bytes_inj:
  fixes a a' b b' c c' :: nat
  assumes "b < 256" and "b' < 256" and "c < 256" and "c' < 256"
    and "a div 4 = a' div 4"
    and "(a mod 4) * 16 + b div 16 = (a' mod 4) * 16 + b' div 16"
    and "(b mod 16) * 4 + c div 64 = (b' mod 16) * 4 + c' div 64"
    and "c mod 64 = c' mod 64"
  shows "a = a' \<and> b = b' \<and> c = c'"
proof -
  have "a mod 4 = a' mod 4"
    using hi16(1) [OF b16 [OF assms(1)], of "a mod 4"] hi16(1) [OF b16 [OF assms(2)], of "a' mod 4"]
      assms(6) by simp
  then have a: "a = a'" using assms(5) by (metis div_mult_mod_eq)
  have bd: "b div 16 = b' div 16"
    using hi16(2) [OF b16 [OF assms(1)], of "a mod 4"] hi16(2) [OF b16 [OF assms(2)], of "a' mod 4"]
      assms(6) by simp
  have bm: "b mod 16 = b' mod 16"
    using hi4(1) [OF c64 [OF assms(3)], of "b mod 16"] hi4(1) [OF c64 [OF assms(4)], of "b' mod 16"]
      assms(7) by simp
  have b: "b = b'" using bd bm by (metis div_mult_mod_eq)
  have cd: "c div 64 = c' div 64"
    using hi4(2) [OF c64 [OF assms(3)], of "b mod 16"] hi4(2) [OF c64 [OF assms(4)], of "b' mod 16"]
      assms(7) by simp
  have c: "c = c'" using cd assms(8) by (metis div_mult_mod_eq)
  show ?thesis using a b c by simp
qed

lemma sextet_bounds:
  fixes a b c :: nat
  assumes "a < 256" and "b < 256" and "c < 256"
  shows "a div 4 < 64" and "(a mod 4) * 16 < 64" and "(a mod 4) * 16 + b div 16 < 64"
    and "(b mod 16) * 4 < 64" and "(b mod 16) * 4 + c div 64 < 64" and "c mod 64 < 64"
proof -
  have m4: "a mod 4 < 4" and m16: "b mod 16 < 16" by simp_all
  have d16: "b div 16 < 16" using assms(2) by simp
  have d64: "c div 64 < 4" using assms(3) by simp
  show "a div 4 < 64" using assms(1) by simp
  show "(a mod 4) * 16 < 64" using m4 by linarith
  show "(a mod 4) * 16 + b div 16 < 64" using m4 d16 by linarith
  show "(b mod 16) * 4 < 64" using m16 by linarith
  show "(b mod 16) * 4 + c div 64 < 64" using m16 d64 by linarith
  show "c mod 64 < 64" by simp
qed

lemma pad_not_digit: "i < 64 \<Longrightarrow> CHR ''='' \<noteq> base64Digit i"
  using digit_not_pad [of i] by simp

lemma base64_inj:
  assumes "\<forall>x\<in>set xs. x < 256" and "\<forall>y\<in>set ys. y < 256" and "base64 xs = base64 ys"
  shows "xs = ys"
  using assms
proof (induction xs arbitrary: ys rule: base64.induct)
  case 1
  then show ?case by (cases ys rule: base64.cases) simp_all
next
  case (2 a)
  have a: "a < 256" using "2.prems"(1) by simp
  show ?case
  proof (cases ys rule: base64.cases)
    case 1
    then show ?thesis using "2.prems"(3) by simp
  next
    case (2 a')
    have a': "a' < 256" using "2.prems"(2) 2 by simp
    have eqs: "a div 4 = a' div 4" "(a mod 4) * 16 = (a' mod 4) * 16"
      using "2.prems"(3) 2 sextet_bounds(1,2) [OF a a a] sextet_bounds(1,2) [OF a' a' a']
      by (simp_all add: digit_eq_iff)
    have "a = a'" by (rule one_byte_inj [OF eqs])
    then show ?thesis using 2 by simp
  next
    case (3 a' b')
    have "a' < 256" "b' < 256" using "2.prems"(2) 3 by simp_all
    then have "CHR ''='' \<noteq> base64Digit ((b' mod 16) * 4)"
      using sextet_bounds(4) pad_not_digit by simp
    then show ?thesis using "2.prems"(3) 3 by simp
  next
    case (4 a' b' c' rest')
    have "b' < 256" "c' < 256" using "2.prems"(2) 4 by simp_all
    then have "CHR ''='' \<noteq> base64Digit ((b' mod 16) * 4 + c' div 64)"
      using sextet_bounds(5) pad_not_digit by simp
    then show ?thesis using "2.prems"(3) 4 by simp
  qed
next
  case (3 a b)
  have ab: "a < 256" "b < 256" using "3.prems"(1) by simp_all
  show ?case
  proof (cases ys rule: base64.cases)
    case 1
    then show ?thesis using "3.prems"(3) by simp
  next
    case (2 a')
    have "base64Digit ((b mod 16) * 4) \<noteq> CHR ''=''"
      using sextet_bounds(4) [OF ab(1) ab(2) ab(2)] digit_not_pad by simp
    then show ?thesis using "3.prems"(3) 2 by simp
  next
    case (3 a' b')
    have ab': "a' < 256" "b' < 256" using "3.prems"(2) 3 by simp_all
    have eqs: "a div 4 = a' div 4"
      "(a mod 4) * 16 + b div 16 = (a' mod 4) * 16 + b' div 16"
      "(b mod 16) * 4 = (b' mod 16) * 4"
      using "3.prems"(3) 3 sextet_bounds(1,3,4) [OF ab(1) ab(2) ab(2)]
        sextet_bounds(1,3,4) [OF ab'(1) ab'(2) ab'(2)]
      by (simp_all add: digit_eq_iff)
    have "a = a' \<and> b = b'" by (rule two_bytes_inj [OF ab(2) ab'(2) eqs])
    then show ?thesis using 3 by simp
  next
    case (4 a' b' c' rest')
    have "c' < 256" using "3.prems"(2) 4 by simp
    then have "CHR ''='' \<noteq> base64Digit (c' mod 64)"
      using pad_not_digit by simp
    then show ?thesis using "3.prems"(3) 4 by simp
  qed
next
  case (4 a b c rest)
  have abc: "a < 256" "b < 256" "c < 256" using "4.prems"(1) by simp_all
  show ?case
  proof (cases ys rule: base64.cases)
    case 1
    then show ?thesis using "4.prems"(3) by simp
  next
    case (2 a')
    have "base64Digit ((b mod 16) * 4 + c div 64) \<noteq> CHR ''=''"
      using sextet_bounds(5) [OF abc] digit_not_pad by simp
    then show ?thesis using "4.prems"(3) 2 by simp
  next
    case (3 a' b')
    have "base64Digit (c mod 64) \<noteq> CHR ''=''"
      using digit_not_pad by simp
    then show ?thesis using "4.prems"(3) 3 by simp
  next
    case (4 a' b' c' rest')
    have abc': "a' < 256" "b' < 256" "c' < 256" using "4.prems"(2) 4 by simp_all
    have eqs: "a div 4 = a' div 4"
      "(a mod 4) * 16 + b div 16 = (a' mod 4) * 16 + b' div 16"
      "(b mod 16) * 4 + c div 64 = (b' mod 16) * 4 + c' div 64"
      "c mod 64 = c' mod 64"
      using "4.prems"(3) 4 sextet_bounds(1,3,5,6) [OF abc] sextet_bounds(1,3,5,6) [OF abc']
      by (simp_all add: digit_eq_iff)
    have tail: "base64 rest = base64 rest'"
      using "4.prems"(3) 4 by simp
    have "a = a' \<and> b = b' \<and> c = c'"
      by (rule three_bytes_inj [OF abc(2) abc'(2) abc(3) abc'(3) eqs])
    moreover have "rest = rest'"
      using "4.IH" [of rest'] "4.prems"(1,2) 4 tail by simp
    ultimately show ?thesis using 4 by simp
  qed
qed


lemma unat_codeUnit: "unat (of_nat (of_char c) :: 16 word) = of_char c"
proof -
  have "(of_char c :: nat) < 256" by simp
  then have "(of_char c :: nat) < 65536" by (rule less_trans) simp
  then show ?thesis by (simp add: unat_of_nat take_bit_nat_eq_self)
qed

lemma codeUnitsOf_inj: "codeUnitsOf s = codeUnitsOf s' \<Longrightarrow> s = s'"
proof (induction s arbitrary: s')
  case Nil
  then show ?case by (simp add: codeUnitsOf_def)
next
  case (Cons c s)
  then obtain c' t where s': "s' = c' # t"
    by (cases s') (auto simp: codeUnitsOf_def)
  have "(of_nat (of_char c) :: 16 word) = of_nat (of_char c')"
    using Cons.prems s' by (simp add: codeUnitsOf_def)
  then have "unat (of_nat (of_char c) :: 16 word) = unat (of_nat (of_char c') :: 16 word)"
    by simp
  then have "c = c'" by (simp add: unat_codeUnit)
  moreover have "s = t"
    using Cons.IH [of t] Cons.prems s' by (simp add: codeUnitsOf_def)
  ultimately show ?case using s' by simp
qed

lemma latin1_bytes:
  assumes "\<not> list_ex (\<lambda>u. 255 < u) (p :: codeUnits)"
  shows "\<forall>x\<in>set (map unat p). x < 256"
proof -
  have "unat u < 256" if "u \<in> set p" for u
  proof -
    have "u \<le> 255" using assms that by (auto simp: list_ex_iff)
    then have "unat u \<le> unat (255 :: 16 word)" by (simp add: word_le_nat_alt)
    then show ?thesis by simp
  qed
  then show ?thesis by simp
qed

lemma salt_latin1: "\<not> list_ex (\<lambda>u. 255 < u) (codeUnitsOf ''salt'')"
  by (simp add: codeUnitsOf_def)

lemma Mem_hashPassword_latin1:
  "\<not> list_ex (\<lambda>u. 255 < u) p \<Longrightarrow>
     Mem_hashPassword p = Inr (codeUnitsOf (base64 (map unat (p @ codeUnitsOf ''salt''))))"
  using salt_latin1 by (simp add: Mem_hashPassword_def btoa_def)

lemma Mem_hashPassword_throws:
  "list_ex (\<lambda>u. 255 < u) p \<Longrightarrow> Mem_hashPassword p = Inl InvalidCharacterError"
  by (simp add: Mem_hashPassword_def btoa_def)

lemma Mem_hashPassword_inj:
  assumes "\<not> list_ex (\<lambda>u. 255 < u) p" and "\<not> list_ex (\<lambda>u. 255 < u) q"
    and "Mem_hashPassword p = Mem_hashPassword q"
  shows "p = q"
proof -
  have "codeUnitsOf (base64 (map unat (p @ codeUnitsOf ''salt'')))
          = codeUnitsOf (base64 (map unat (q @ codeUnitsOf ''salt'')))"
    using assms by (simp add: Mem_hashPassword_latin1)
  then have b: "base64 (map unat (p @ codeUnitsOf ''salt''))
                  = base64 (map unat (q @ codeUnitsOf ''salt''))"
    by (rule codeUnitsOf_inj)
  have salted: "\<not> list_ex (\<lambda>u. 255 < u) (p @ codeUnitsOf ''salt'')"
      "\<not> list_ex (\<lambda>u. 255 < u) (q @ codeUnitsOf ''salt'')"
    using assms(1,2) salt_latin1 by simp_all
  have "map unat (p @ codeUnitsOf ''salt'') = map unat (q @ codeUnitsOf ''salt'')"
    by (rule base64_inj [OF latin1_bytes [OF salted(1)] latin1_bytes [OF salted(2)] b])
  then have "p @ codeUnitsOf ''salt'' = q @ codeUnitsOf ''salt''"
    by (simp add: inj_map_eq_map)
  then show ?thesis by simp
qed

text \<open>
  The round trip of \<open>MemStorage\<close> on the passwords \<open>btoa\<close> accepts. A password whose
  code units are all at most 255 (empty or not) has a hash, \<open>validatePassword\<close> accepts
  the password against its own hash and rejects every other such password against it.
  A password with a code unit above 255 has no hash: \<open>hashPassword\<close> and
  \<open>validatePassword\<close> throw \<open>InvalidCharacterError\<close>.
\<close>

theorem Mem_password_round_trip:
  "(\<not> list_ex (\<lambda>u. 255 < u) p \<longrightarrow>
      (\<exists>h. Mem_hashPassword p = Inr h \<and> Mem_validatePassword p h = Inr True)) \<and>
   (\<not> list_ex (\<lambda>u. 255 < u) p \<and> \<not> list_ex (\<lambda>u. 255 < u) q \<and> p \<noteq> q \<longrightarrow>
      (\<exists>h. Mem_hashPassword q = Inr h \<and> Mem_validatePassword p h = Inr False)) \<and>
   (list_ex (\<lambda>u. 255 < u) p \<longrightarrow>
      Mem_hashPassword p = Inl InvalidCharacterError \<and>
      Mem_validatePassword p hash = Inl InvalidCharacterError)"
proof (intro conjI impI)
  assume "\<not> list_ex (\<lambda>u. 255 < u) p"
  then show "\<exists>h. Mem_hashPassword p = Inr h \<and> Mem_validatePassword p h = Inr True"
    by (simp add: Mem_validatePassword_def Mem_hashPassword_latin1)
next
  assume h: "\<not> list_ex (\<lambda>u. 255 < u) p \<and> \<not> list_ex (\<lambda>u. 255 < u) q \<and> p \<noteq> q"
  then have "Mem_hashPassword p \<noteq> Mem_hashPassword q"
    using Mem_hashPassword_inj by blast
  then show "\<exists>h. Mem_hashPassword q = Inr h \<and> Mem_validatePassword p h = Inr False"
    using h by (simp add: Mem_validatePassword_def Mem_hashPassword_latin1)
next
  assume t: "list_ex (\<lambda>u. 255 < u) p"
  show "Mem_hashPassword p = Inl InvalidCharacterError"
    using t by (rule Mem_hashPassword_throws)
  show "Mem_validatePassword p hash = Inl InvalidCharacterError"
    using t by (simp add: Mem_validatePassword_def Mem_hashPassword_throws)
qed


text \<open>
  Claim C6, at the input where the code departs from it: the one-character password
  \<open>U+20AC\<close> (the euro sign) in \<open>MemStorage\<close>. \<open>btoa\<close> throws on it, so \<open>hashPassword\<close>
  gives no hash, and \<open>validatePassword\<close>, here against the Base64 of the password's UTF-8
  bytes and the salt, throws as well instead of returning true. The sibling
  \<open>DatabaseStorage.validatePassword\<close> has the \<open>try\<close> that \<open>MemStorage\<close> lacks: where its
  own library call throws it returns false.
\<close>

theorem euro_sign_password_has_no_hash:
  "Mem_hashPassword [0x20AC] = Inl InvalidCharacterError \<and>
   Mem_validatePassword [0x20AC] (codeUnitsOf ''4oKsc2FsdA=='') = Inl InvalidCharacterError \<and>
   validatePassword (sampleEnv\<lparr>compareSync := (\<lambda>p h. Inl ())\<rparr>) (Some ''secret'')
     ''4oKsc2FsdA=='' = False"
  by (simp add: Mem_validatePassword_def Mem_hashPassword_def btoa_def codeUnitsOf_def
      validatePassword_def)

theorem Mem_password_round_trip_witness:
  "Mem_hashPassword (codeUnitsOf ''secret'') = Inr (codeUnitsOf ''c2VjcmV0c2FsdA=='') \<and>
   Mem_validatePassword (codeUnitsOf ''secret'') (codeUnitsOf ''c2VjcmV0c2FsdA=='') = Inr True \<and>
   Mem_validatePassword (codeUnitsOf ''Secret'') (codeUnitsOf ''c2VjcmV0c2FsdA=='') = Inr False \<and>
   Mem_validatePassword [0x20AC] (codeUnitsOf ''c2VjcmV0c2FsdA=='') = Inl InvalidCharacterError"
proof -
  have l: "\<not> list_ex (\<lambda>u. 255 < u) (codeUnitsOf ''secret'')"
      "\<not> list_ex (\<lambda>u. 255 < u) (codeUnitsOf ''Secret'')"
      "list_ex (\<lambda>u. 255 < u) [0x20AC :: 16 word]"
      "codeUnitsOf ''Secret'' \<noteq> codeUnitsOf ''secret''"
    by (simp_all add: codeUnitsOf_def)
  have h: "Mem_hashPassword (codeUnitsOf ''secret'') = Inr (codeUnitsOf ''c2VjcmV0c2FsdA=='')"
    by (simp add: Mem_hashPassword_def btoa_def codeUnitsOf_def base64Digit_def
        base64Alphabet_def)
  show ?thesis
    using Mem_password_round_trip [of "codeUnitsOf ''Secret''" "codeUnitsOf ''secret''"]
      Mem_password_round_trip [of "[0x20AC]" "[]" "codeUnitsOf ''c2VjcmV0c2FsdA==''"]
      l h
    by (auto simp: Mem_validatePassword_def)
qed

end
